theory Spec2Isabelle
  imports
    Complex_Main
    "HOL-Library.Char_ord"
    "HOL-Library.List_Lexorder"
    "HOL-Library.Product_Lexorder"
    "HOL-Library.Multiset"
begin

section \<open>Conventions of the embedding\<close>

text \<open>
  The program is \<^verbatim>\<open>manhattan_generator.py\<close> (Python 2 with numpy).  Its data preparation
  is embedded function by function: \<^verbatim>\<open>encode_chr\<close>, \<^verbatim>\<open>read_input_file\<close> and the part of
  \<^verbatim>\<open>create_manhattan_plot\<close> that reconciles the chromosomes of the two datasets and places
  them on the x axis.

  \<^item> Python \<^verbatim>\<open>str\<close> values are byte strings: \<open>string\<close>.
  \<^item> Python integers are unbounded: \<open>int\<close>.  The columns \<^verbatim>\<open>chr\<close> and (with physical
    positions) \<^verbatim>\<open>pos\<close> of the numpy array are 64-bit; a value outside that range makes
    the conversion raise \<^verbatim>\<open>OverflowError\<close>, which the model writes out.  What numpy reads
    back from the \<^verbatim>\<open>pos\<close> column is then a 64-bit integer, and the sum of two of them
    wraps around (numpy warns and goes on): \<open>pos_add\<close> writes this out.
  \<^item> A Python or numpy float that is a number is carried as the real number it is:
    \<open>real\<close>; the builtin \<^verbatim>\<open>float\<close> is a parameter \<open>pf\<close> of the reader (\<open>None\<close> is its
    \<^verbatim>\<open>ValueError\<close>).  The arithmetic of the axis layout is written out as binary64
    arithmetic: every sum, difference and quotient is rounded to the nearest binary64
    number, ties to even (\<open>f64\<close>), and a result that is not a number any more (infinity,
    NaN) is \<open>None\<close>.  \<^verbatim>\<open>np.log10\<close> is not written out: \<open>pvalue_transform\<close> is the real
    function it approximates.
  \<^item> An exception is a value of type \<open>error\<close>; a function that can raise returns
    \<open>error + 'a\<close>, with \<open>Inl\<close> for the exception.
\<close>

datatype error =
    ProgramError string   \<comment> \<open>the program's own exception, with its message\<close>
  | ValueError            \<comment> \<open>builtin: \<^verbatim>\<open>max([])\<close>, a numpy reduction of an empty array\<close>
  | IndexError            \<comment> \<open>builtin: a list index out of range\<close>
  | KeyError              \<comment> \<open>builtin: a dictionary key that is absent\<close>
  | OverflowError         \<comment> \<open>builtin: a Python integer too large for a 64-bit column\<close>


section \<open>Strings: the builtins the program calls\<close>

text \<open>\<^verbatim>\<open>str.upper\<close> in the C locale: the letters a..z (97..122) lose 32, every other byte stays.\<close>

definition char_upper :: "char \<Rightarrow> char" where
  "char_upper c =
     (let n = (of_char c :: nat) in if 97 \<le> n \<and> n \<le> 122 then char_of (n - 32) else c)"

definition upper :: "string \<Rightarrow> string" where
  "upper s = map char_upper s"

text \<open>C's \<^verbatim>\<open>isspace\<close>: space, and the bytes 9..13 (tab, newline, vertical tab, form feed,
  carriage return).\<close>

definition is_space :: "char \<Rightarrow> bool" where
  "is_space c = (let n = (of_char c :: nat) in n = 32 \<or> (9 \<le> n \<and> n \<le> 13))"

definition is_digit :: "char \<Rightarrow> bool" where
  "is_digit c = (let n = (of_char c :: nat) in 48 \<le> n \<and> n \<le> 57)"

definition digit_val :: "char \<Rightarrow> nat" where
  "digit_val c = of_char c - 48"

definition strip :: "string \<Rightarrow> string" where
  "strip s = rev (dropWhile is_space (rev (dropWhile is_space s)))"

definition digits_value :: "string \<Rightarrow> nat" where
  "digits_value ds = foldl (\<lambda>a c. 10 * a + digit_val c) 0 ds"

definition parse_digits :: "string \<Rightarrow> int option" where
  "parse_digits ds =
     (if ds \<noteq> [] \<and> list_all is_digit ds then Some (int (digits_value ds)) else None)"

text \<open>
  The builtin \<^verbatim>\<open>int\<close> of Python 2 on a byte string, base 10: surrounding white space is
  dropped, one sign is allowed, and at least one decimal digit must follow with nothing
  else; \<open>None\<close> stands for \<^verbatim>\<open>ValueError\<close>.
\<close>

definition py_int :: "string \<Rightarrow> int option" where
  "py_int s =
     (case strip s of
        [] \<Rightarrow> None
      | c # cs \<Rightarrow>
          if c = CHR ''-'' then map_option uminus (parse_digits cs)
          else if c = CHR ''+'' then parse_digits cs
          else parse_digits (c # cs))"

text \<open>The builtin \<^verbatim>\<open>str\<close> on an integer: its decimal numeral, used to state that
  \<^verbatim>\<open>encode_chr\<close> takes every integer.\<close>

definition digit_char :: "nat \<Rightarrow> char" where
  "digit_char d = char_of (48 + d)"

fun nat_digits :: "nat \<Rightarrow> string" where
  "nat_digits n = (if n < 10 then [digit_char n] else nat_digits (n div 10) @ [digit_char (n mod 10)])"

declare nat_digits.simps [simp del]

definition py_str :: "int \<Rightarrow> string" where
  "py_str i = (if i < 0 then CHR ''-'' # nat_digits (nat (- i)) else nat_digits (nat i))"


section \<open>Chromosome encoder: \<^verbatim>\<open>encode_chr\<close>\<close>

definition encode_chr :: "string \<Rightarrow> error + int" where
  "encode_chr chromosome0 =
     (let chromosome = upper chromosome0 in
      if chromosome = ''X'' then Inr 23
      else if chromosome = ''Y'' then Inr 24
      else if chromosome = ''XY'' then Inr 25
      else if chromosome = ''MT'' then Inr 26
      else (case py_int chromosome of
              Some n \<Rightarrow> Inr n
            | None \<Rightarrow> Inl (ProgramError (chromosome @ '': not a valid chromosome''))))"


section \<open>Table reader: \<^verbatim>\<open>read_input_file\<close>\<close>

record marker =
  chr :: int
  pos :: real
  name :: string
  conf :: real

text \<open>The fields of \<^verbatim>\<open>options\<close> that the reader uses.\<close>

record options =
  col_chr :: string
  col_name :: string
  col_pos :: string
  col_cm :: string
  col_pvalue :: string
  col_lod :: string
  exclude_chr :: "int set"

text \<open>\<^verbatim>\<open>line.rstrip("\r\n").split("\t")\<close>: carriage returns and newlines are dropped from the
  end of the line, and the rest is cut at every tab (so there is always at least one field).\<close>

definition rstrip_newline :: "string \<Rightarrow> string" where
  "rstrip_newline line = rev (dropWhile (\<lambda>c. c = CHR 0x0D \<or> c = CHR 0x0A) (rev line))"

fun split_tab :: "string \<Rightarrow> string list" where
  "split_tab [] = [[]]"
| "split_tab (c # cs) =
     (if c = CHR 0x09 then [] # split_tab cs
      else (case split_tab cs of
              [] \<Rightarrow> [[c]]
            | f # fs \<Rightarrow> (c # f) # fs))"

definition split_line :: "string \<Rightarrow> string list" where
  "split_line line = split_tab (rstrip_newline line)"

text \<open>\<^verbatim>\<open>dict([(colName, i) for i, colName in enumerate(row)])\<close>: of two columns with one
  name the later one stays.\<close>

definition header_index :: "string list \<Rightarrow> (string \<rightharpoonup> nat)" where
  "header_index row = map_of (rev (zip row [0..<length row]))"

text \<open>\<^verbatim>\<open>[options.col_cm, options.col_pos][use_physical_positions]\<close> and
  \<^verbatim>\<open>[options.col_lod, options.col_pvalue][use_pvalues]\<close>.\<close>

definition position_column :: "bool \<Rightarrow> options \<Rightarrow> string" where
  "position_column use_physical_positions opts =
     (if use_physical_positions then col_pos opts else col_cm opts)"

definition confidence_column :: "bool \<Rightarrow> options \<Rightarrow> string" where
  "confidence_column use_pvalues opts = (if use_pvalues then col_pvalue opts else col_lod opts)"

definition colNames :: "bool \<Rightarrow> bool \<Rightarrow> options \<Rightarrow> string list" where
  "colNames use_physical_positions use_pvalues opts =
     [col_chr opts, col_name opts, position_column use_physical_positions opts,
      confidence_column use_pvalues opts]"

text \<open>The check of the header line: the first required column that is absent is reported.\<close>

definition check_header :: "string \<Rightarrow> (string \<rightharpoonup> nat) \<Rightarrow> string list \<Rightarrow> error option" where
  "check_header inFileName headerIndex names =
     (case find (\<lambda>colName. headerIndex colName = None) names of
        None \<Rightarrow> None
      | Some colName \<Rightarrow> Some (ProgramError (inFileName @ '': no column named '' @ colName)))"

text \<open>\<^verbatim>\<open>row[headerIndex[colName]]\<close>.\<close>

definition get_field :: "string list \<Rightarrow> (string \<rightharpoonup> nat) \<Rightarrow> string \<Rightarrow> error + string" where
  "get_field row headerIndex colName =
     (case headerIndex colName of
        None \<Rightarrow> Inl KeyError
      | Some i \<Rightarrow> if i < length row then Inr (row ! i) else Inl IndexError)"

text \<open>\<^verbatim>\<open>[float, int][use_physical_positions]\<close> applied to the position field.\<close>

definition parse_position :: "(string \<Rightarrow> real option) \<Rightarrow> bool \<Rightarrow> string \<Rightarrow> real option" where
  "parse_position pf use_physical_positions s =
     (if use_physical_positions then map_option real_of_int (py_int s) else pf s)"

text \<open>
  The body of the loop for a line after the header.  \<open>Inr None\<close> is \<^verbatim>\<open>continue\<close> (the row
  is skipped), \<open>Inr (Some m)\<close> is the tuple appended to \<^verbatim>\<open>data\<close>, \<open>Inl e\<close> is an exception.
\<close>

definition read_row ::
  "(string \<Rightarrow> real option) \<Rightarrow> string \<Rightarrow> bool \<Rightarrow> bool \<Rightarrow> options \<Rightarrow> (string \<rightharpoonup> nat) \<Rightarrow>
     string list \<Rightarrow> error + marker option" where
  "read_row pf inFileName use_physical_positions use_pvalues opts headerIndex row =
     (case get_field row headerIndex (col_chr opts) of
        Inl e \<Rightarrow> Inl e
      | Inr label \<Rightarrow>
     (case encode_chr label of
        Inl e \<Rightarrow> Inl e
      | Inr chromosome \<Rightarrow>
     if chromosome \<in> exclude_chr opts then Inr None
     else
     (case get_field row headerIndex (position_column use_physical_positions opts) of
        Inl e \<Rightarrow> Inl e
      | Inr ptext \<Rightarrow>
     (case parse_position pf use_physical_positions ptext of
        None \<Rightarrow> Inl (ProgramError (ptext @ '': invalid position in '' @ inFileName))
      | Some position \<Rightarrow>
     (case get_field row headerIndex (confidence_column use_pvalues opts) of
        Inl e \<Rightarrow> Inl e
      | Inr confidence \<Rightarrow>
     if upper confidence = ''NA'' \<or> upper confidence = ''NAN'' then Inr None
     else
     (case pf confidence of
        None \<Rightarrow> Inl (ProgramError (confidence @ '': invalid confidence in '' @ inFileName))
      | Some c \<Rightarrow>
     (case get_field row headerIndex (col_name opts) of
        Inl e \<Rightarrow> Inl e
      | Inr nm \<Rightarrow>
          Inr (Some \<lparr>chr = chromosome, pos = position, name = nm, conf = c\<rparr>))))))))"

text \<open>The loop over the lines after the header: the first exception ends it.\<close>

fun read_rows ::
  "(string \<Rightarrow> real option) \<Rightarrow> string \<Rightarrow> bool \<Rightarrow> bool \<Rightarrow> options \<Rightarrow> (string \<rightharpoonup> nat) \<Rightarrow>
     string list \<Rightarrow> error + marker list" where
  "read_rows pf inFileName use_physical_positions use_pvalues opts headerIndex [] = Inr []"
| "read_rows pf inFileName use_physical_positions use_pvalues opts headerIndex (line # rest) =
     (case read_row pf inFileName use_physical_positions use_pvalues opts headerIndex
             (split_line line) of
        Inl e \<Rightarrow> Inl e
      | Inr None \<Rightarrow>
          read_rows pf inFileName use_physical_positions use_pvalues opts headerIndex rest
      | Inr (Some m) \<Rightarrow>
          (case read_rows pf inFileName use_physical_positions use_pvalues opts headerIndex rest of
             Inl e \<Rightarrow> Inl e
           | Inr ms \<Rightarrow> Inr (m # ms)))"

text \<open>
  The whole loop: the list \<^verbatim>\<open>data\<close> when the file is exhausted.  \<open>inFile\<close> is the list of
  the lines as the file object yields them.  An empty file has no header line: the loop body
  never runs and \<^verbatim>\<open>data\<close> stays empty.
\<close>

definition parse_file ::
  "(string \<Rightarrow> real option) \<Rightarrow> string \<Rightarrow> string list \<Rightarrow> bool \<Rightarrow> bool \<Rightarrow> options \<Rightarrow>
     error + marker list" where
  "parse_file pf inFileName inFile use_physical_positions use_pvalues opts =
     (case inFile of
        [] \<Rightarrow> Inr []
      | header # rest \<Rightarrow>
          (let headerIndex = header_index (split_line header) in
           case check_header inFileName headerIndex
                  (colNames use_physical_positions use_pvalues opts) of
             Some e \<Rightarrow> Inl e
           | None \<Rightarrow>
               read_rows pf inFileName use_physical_positions use_pvalues opts headerIndex rest))"

text \<open>
  \<^verbatim>\<open>np.array(data, dtype=[("chr", int), ("pos", ...), ("name", "a%d" % max(...)), ("conf", float)])\<close>.
  The width of the name column is the length of the longest name, and \<^verbatim>\<open>max\<close> of no
  lengths raises \<^verbatim>\<open>ValueError\<close>; every name fits its column.  The integer columns hold 64
  bits.
\<close>

definition fits_int64 :: "real \<Rightarrow> bool" where
  "fits_int64 x = (- (2 ^ 63) \<le> x \<and> x < 2 ^ 63)"

definition np_array :: "bool \<Rightarrow> marker list \<Rightarrow> error + marker list" where
  "np_array use_physical_positions data =
     (if data = [] then Inl ValueError
      else if list_ex (\<lambda>m. \<not> fits_int64 (real_of_int (chr m)) \<or>
                           (use_physical_positions \<and> \<not> fits_int64 (pos m))) data
      then Inl OverflowError
      else Inr data)"

text \<open>
  \<^verbatim>\<open>data.sort(order=["chr", "pos"])\<close> on the structured array.  numpy compares the fields
  named in \<^verbatim>\<open>order\<close> first and then the fields left, in the order of the dtype, to break
  ties: the records come out ascending in \<^verbatim>\<open>(chr, pos, name, conf)\<close>, names compared byte
  by byte.
\<close>

definition sort_order :: "marker \<Rightarrow> int \<times> real \<times> string \<times> real" where
  "sort_order m = (chr m, pos m, name m, conf m)"

definition sort_records :: "marker list \<Rightarrow> marker list" where
  "sort_records data = sort_key sort_order data"

text \<open>\<^verbatim>\<open>data["conf"] = -1 * np.log10(data["conf"])\<close> when p values are used.  For a positive
  p value numpy returns a binary64 number close to this real number; for 0 and for a
  negative one it returns infinity and NaN, which no real number stands for.\<close>

definition pvalue_transform :: "real \<Rightarrow> real" where
  "pvalue_transform c = -1 * log 10 c"

definition transform_conf :: "bool \<Rightarrow> marker list \<Rightarrow> marker list" where
  "transform_conf use_pvalues data =
     (if use_pvalues then map (\<lambda>m. m\<lparr>conf := pvalue_transform (conf m)\<rparr>) data else data)"

definition read_input_file ::
  "(string \<Rightarrow> real option) \<Rightarrow> string \<Rightarrow> string list \<Rightarrow> bool \<Rightarrow> bool \<Rightarrow> options \<Rightarrow>
     error + marker list" where
  "read_input_file pf inFileName inFile use_physical_positions use_pvalues opts =
     (case parse_file pf inFileName inFile use_physical_positions use_pvalues opts of
        Inl e \<Rightarrow> Inl e
      | Inr data \<Rightarrow>
          (case np_array use_physical_positions data of
             Inl e \<Rightarrow> Inl e
           | Inr arr \<Rightarrow> Inr (transform_conf use_pvalues (sort_records arr))))"


section \<open>Axis layout: the chromosomes of \<^verbatim>\<open>create_manhattan_plot\<close>\<close>

text \<open>
  A dataset that was not asked for is \<open>None\<close> (\<^verbatim>\<open>args.twopoint is None\<close>); \<^verbatim>\<open>main\<close> reads
  exactly the files that were named.  Calls that only draw are left out; the values they
  are given are kept, one \<open>placement\<close> for each turn of the loop over the chromosomes.
\<close>

record placement =
  chromosome :: int
  startingPos :: "real option"   \<comment> \<open>added to every position of the chromosome\<close>
  maxPos :: real
  xmin :: "real option"          \<comment> \<open>the box of the chromosome\<close>
  xmax :: "real option"
  tick :: "real option"          \<comment> \<open>where the label of the chromosome stands\<close>
  shaded :: bool                 \<comment> \<open>\<^verbatim>\<open>axvspan\<close> draws the box at odd indices only\<close>

text \<open>\<^verbatim>\<open>[25.0, 25000000][args.phys_pos_flag]\<close>.\<close>

definition chr_spacing :: "bool \<Rightarrow> real" where
  "chr_spacing phys_pos_flag = (if phys_pos_flag then 25000000 else 25.0)"

text \<open>\<^verbatim>\<open>sorted(list(np.unique(data["chr"])))\<close>.\<close>

definition unique_chr :: "marker list \<Rightarrow> int list" where
  "unique_chr data = sort (remdups (map chr data))"

text \<open>\<^verbatim>\<open>np.max\<close> of an array; \<^verbatim>\<open>ValueError\<close> when it is empty.\<close>

definition np_max :: "real list \<Rightarrow> error + real" where
  "np_max xs = (case xs of [] \<Rightarrow> Inl ValueError | x # ys \<Rightarrow> Inr (fold max ys x))"

text \<open>\<^verbatim>\<open>data[np.where(data["chr"] == chromosome)]["pos"]\<close>.\<close>

definition chr_positions :: "marker list \<Rightarrow> int \<Rightarrow> real list" where
  "chr_positions data c = map pos (filter (\<lambda>m. chr m = c) data)"

text \<open>The list \<^verbatim>\<open>maxPos\<close> of one turn of the loop, and \<^verbatim>\<open>max(maxPos)\<close>.\<close>

definition chr_maxPos :: "marker list option \<Rightarrow> marker list option \<Rightarrow> int \<Rightarrow> error + real" where
  "chr_maxPos twopoint multipoint c =
     (case twopoint of
        None \<Rightarrow>
          (case multipoint of
             None \<Rightarrow> Inl ValueError
           | Some mp \<Rightarrow> np_max (chr_positions mp c))
      | Some tp \<Rightarrow>
          (case np_max (chr_positions tp c) of
             Inl e \<Rightarrow> Inl e
           | Inr a \<Rightarrow>
               (case multipoint of
                  None \<Rightarrow> Inr a
                | Some mp \<Rightarrow>
                    (case np_max (chr_positions mp c) of
                       Inl e \<Rightarrow> Inl e
                     | Inr b \<Rightarrow> Inr (max a b)))))"

text \<open>
  Binary64 numbers.  A real number is rounded to the nearest multiple of the unit in the
  last place of its binade (53 significant bits, exponent not below -1022, so that small
  numbers are rounded as subnormal ones are), a tie going to the even multiple.  A rounded
  number of magnitude \<open>2\<^sup>1\<^sup>0\<^sup>2\<^sup>4\<close> or more is an infinity: \<open>None\<close>.
\<close>

definition round_half_even :: "real \<Rightarrow> int" where
  "round_half_even x =
     (let f = \<lfloor>x\<rfloor>; d = x - of_int f in
      if d < 1 / 2 then f else if 1 / 2 < d then f + 1 else if even f then f else f + 1)"

definition f64_ulp :: "real \<Rightarrow> real" where
  "f64_ulp x = 2 powi (max (- 1022) \<lfloor>log 2 \<bar>x\<bar>\<rfloor> - 52)"

definition round_f64 :: "real \<Rightarrow> real" where
  "round_f64 x = of_int (round_half_even (x / f64_ulp x)) * f64_ulp x"

definition f64 :: "real \<Rightarrow> real option" where
  "f64 x = (let y = round_f64 x in if \<bar>y\<bar> < 2 ^ 1024 then Some y else None)"

text \<open>The binary64 numbers are the numbers that rounding leaves as they are.\<close>

definition is_f64 :: "real \<Rightarrow> bool" where
  "is_f64 x = (f64 x = Some x)"

text \<open>Sum, difference and half of two floats.  An operand that is not a number gives a
  result that is not a number.\<close>

definition f64_add :: "real option \<Rightarrow> real option \<Rightarrow> real option" where
  "f64_add a b = (case a of None \<Rightarrow> None | Some x \<Rightarrow> (case b of None \<Rightarrow> None | Some y \<Rightarrow> f64 (x + y)))"

definition f64_sub :: "real option \<Rightarrow> real option \<Rightarrow> real option" where
  "f64_sub a b = (case a of None \<Rightarrow> None | Some x \<Rightarrow> (case b of None \<Rightarrow> None | Some y \<Rightarrow> f64 (x - y)))"

definition f64_half :: "real option \<Rightarrow> real option" where
  "f64_half a = (case a of None \<Rightarrow> None | Some x \<Rightarrow> f64 (x / 2))"

text \<open>
  The sum of two positions.  With genetic positions they are floats.  With physical
  positions \<^verbatim>\<open>np.max\<close> returns a numpy 64-bit integer, the sum of such an integer with
  another one or with a Python integer is again one, and a sum outside the range comes back
  reduced modulo \<open>2\<^sup>6\<^sup>4\<close> into the range.
\<close>

definition wrap_int64 :: "real \<Rightarrow> real" where
  "wrap_int64 x = x - 2 ^ 64 * real_of_int \<lfloor>(x + 2 ^ 63) / 2 ^ 64\<rfloor>"

definition pos_add :: "bool \<Rightarrow> real option \<Rightarrow> real option \<Rightarrow> real option" where
  "pos_add phys_pos_flag a b =
     (if phys_pos_flag
      then (case a of None \<Rightarrow> None | Some x \<Rightarrow> (case b of None \<Rightarrow> None | Some y \<Rightarrow> Some (wrap_int64 (x + y))))
      else f64_add a b)"

text \<open>A position or a cursor as an operand of a float: a 64-bit integer is converted to
  the nearest binary64 number, a float is one already.\<close>

definition as_float :: "bool \<Rightarrow> real option \<Rightarrow> real option" where
  "as_float phys_pos_flag a =
     (if phys_pos_flag then (case a of None \<Rightarrow> None | Some x \<Rightarrow> f64 x) else a)"

text \<open>The loop \<^verbatim>\<open>for i, chromosome in enumerate(availableChr)\<close>, from index \<open>i\<close> and
  cursor \<open>start\<close>.  \<^verbatim>\<open>chr_spacing/2.0\<close> is a float, and so are the ends of the box and the
  tick.\<close>

fun plot_chromosomes ::
  "bool \<Rightarrow> real \<Rightarrow> marker list option \<Rightarrow> marker list option \<Rightarrow> nat \<Rightarrow> real option \<Rightarrow>
     int list \<Rightarrow> error + placement list" where
  "plot_chromosomes phys spacing twopoint multipoint i start [] = Inr []"
| "plot_chromosomes phys spacing twopoint multipoint i start (c # cs) =
     (case chr_maxPos twopoint multipoint c of
        Inl e \<Rightarrow> Inl e
      | Inr mx \<Rightarrow>
          (let half = f64 (spacing / 2);
               lo = f64_sub (as_float phys start) half;
               s = pos_add phys (Some mx) start;
               hi = f64_add (as_float phys s) half;
               p = \<lparr>chromosome = c, startingPos = start, maxPos = mx, xmin = lo, xmax = hi,
                    tick = f64_half (f64_add lo hi), shaded = (i mod 2 = 1)\<rparr>
           in case plot_chromosomes phys spacing twopoint multipoint (Suc i)
                     (pos_add phys s (Some spacing)) cs of
                Inl e \<Rightarrow> Inl e
              | Inr ps \<Rightarrow> Inr (p # ps)))"

text \<open>The chromosomes of the datasets that were given: \<^verbatim>\<open>availableChr\<close> before it is
  reduced to one list.\<close>

definition available_lists :: "marker list option \<Rightarrow> marker list option \<Rightarrow> int list list" where
  "available_lists twopoint multipoint =
     (case twopoint of None \<Rightarrow> [] | Some tp \<Rightarrow> [unique_chr tp]) @
     (case multipoint of None \<Rightarrow> [] | Some mp \<Rightarrow> [unique_chr mp])"

text \<open>\<^verbatim>\<open>np.min\<close> and \<^verbatim>\<open>np.max\<close> of the confidence column of each dataset given, for the limits
  of the y axis; only the exception matters to the layout.\<close>

definition conf_max :: "marker list option \<Rightarrow> marker list option \<Rightarrow> error + real list" where
  "conf_max twopoint multipoint =
     (case (case twopoint of None \<Rightarrow> Inr [] | Some tp \<Rightarrow> map_sum id (\<lambda>x. [x]) (np_max (map conf tp))) of
        Inl e \<Rightarrow> Inl e
      | Inr xs \<Rightarrow>
          (case multipoint of
             None \<Rightarrow> Inr xs
           | Some mp \<Rightarrow> map_sum id (\<lambda>x. xs @ [x]) (np_max (map conf mp))))"

definition mismatch_msg :: string where
  "mismatch_msg = ''missing chromsoome in either twopoint or multipoint data''"

definition no_display_msg :: string where
  "no_display_msg =
     ''There is no available display, but annotation has been asked for...'' @
     CHR 0x0A # ''Try using the --no_annotation option.''"

text \<open>
  \<open>display\<close> says whether the figure can be created (\<^verbatim>\<open>TclError\<close> otherwise).  The result is
  the layout the renderer is given.
\<close>

definition create_manhattan_plot ::
  "marker list option \<Rightarrow> marker list option \<Rightarrow> bool \<Rightarrow> bool \<Rightarrow> error + placement list" where
  "create_manhattan_plot twopoint multipoint phys_pos_flag display =
     (case (case available_lists twopoint multipoint of
              [] \<Rightarrow> Inl IndexError
            | [a] \<Rightarrow> Inr a
            | a # b # _ \<Rightarrow> if a \<noteq> b then Inl (ProgramError mismatch_msg) else Inr a) of
        Inl e \<Rightarrow> Inl e
      | Inr availableChr \<Rightarrow>
          if \<not> display then Inl (ProgramError no_display_msg)
          else (case conf_max twopoint multipoint of
                  Inl e \<Rightarrow> Inl e
                | Inr _ \<Rightarrow>
                    plot_chromosomes phys_pos_flag (chr_spacing phys_pos_flag) twopoint
                      multipoint 0 (Some 0) availableChr))"


text \<open>The positions of a chromosome in the datasets that were given: what \<^verbatim>\<open>np.max\<close> is
  taken of, over both datasets.\<close>

definition given_positions :: "marker list option \<Rightarrow> marker list option \<Rightarrow> int \<Rightarrow> real list" where
  "given_positions twopoint multipoint c =
     (case twopoint of None \<Rightarrow> [] | Some tp \<Rightarrow> chr_positions tp c) @
     (case multipoint of None \<Rightarrow> [] | Some mp \<Rightarrow> chr_positions mp c)"

text \<open>
  One turn of the loop computes without loss at cursor \<open>c\<close> and largest position \<open>m\<close>:
  with physical positions the two sums of the cursor stay within the 64-bit range, with
  genetic positions the next cursor is a binary64 number, and every number of the box and
  the tick is a binary64 number, so that no sum is rounded.
\<close>

definition exact_turn :: "bool \<Rightarrow> real \<Rightarrow> real \<Rightarrow> real \<Rightarrow> bool" where
  "exact_turn phys spacing c m =
     ((if phys then fits_int64 (m + c) \<and> fits_int64 (m + c + spacing)
       else is_f64 (m + c + spacing)) \<and>
      is_f64 (spacing / 2) \<and> is_f64 c \<and> is_f64 (c - spacing / 2) \<and> is_f64 (m + c) \<and>
      is_f64 (m + c + spacing / 2) \<and>
      is_f64 ((c - spacing / 2) + (m + c + spacing / 2)) \<and>
      is_f64 (((c - spacing / 2) + (m + c + spacing / 2)) / 2))"

text \<open>The cursor of the specification before the chromosome of index \<open>k\<close>: the sum, over
  the chromosomes before it, of the largest position plus the spacing, in real numbers.\<close>

definition spec_cursor :: "real \<Rightarrow> placement list \<Rightarrow> nat \<Rightarrow> real" where
  "spec_cursor spacing ps k = sum_list (map (\<lambda>p. maxPos p + spacing) (take k ps))"


section \<open>Concrete inputs\<close>

text \<open>
  Plain decimal literals (a sign, digits, at most one point), the part of the grammar of
  the builtin \<^verbatim>\<open>float\<close> that the worked inputs below need; it instantiates \<open>pf\<close> there.
\<close>

definition parse_decimal :: "string \<Rightarrow> real option" where
  "parse_decimal body =
     (let ip = takeWhile is_digit body; rest = dropWhile is_digit body in
      case rest of
        [] \<Rightarrow> if ip = [] then None else Some (real (digits_value ip))
      | c # fp \<Rightarrow>
          if c = CHR ''.'' \<and> list_all is_digit fp \<and> (ip \<noteq> [] \<or> fp \<noteq> [])
          then Some (real (digits_value ip) + real (digits_value fp) / 10 ^ length fp)
          else None)"

definition float_decimal :: "string \<Rightarrow> real option" where
  "float_decimal s =
     (case strip s of
        [] \<Rightarrow> None
      | c # cs \<Rightarrow>
          if c = CHR ''-'' then map_option uminus (parse_decimal cs)
          else if c = CHR ''+'' then parse_decimal cs
          else parse_decimal (c # cs))"

text \<open>A line of a tab-separated file from its fields, ended by a newline.\<close>

fun join_tab :: "string list \<Rightarrow> string" where
  "join_tab [] = []"
| "join_tab [f] = f"
| "join_tab (f # g # fs) = f @ CHR 0x09 # join_tab (g # fs)"

definition tsv_line :: "string list \<Rightarrow> string" where
  "tsv_line cells = join_tab cells @ [CHR 0x0A]"

text \<open>The default column names of the command line, nothing excluded.\<close>

definition default_options :: options where
  "default_options =
     \<lparr>col_chr = ''chr'', col_name = ''name'', col_pos = ''pos'', col_cm = ''cm'',
      col_pvalue = ''p_value'', col_lod = ''lod'', exclude_chr = {}\<rparr>"

section \<open>Facts about the string builtins\<close>

lemma of_char_char_upper:
  "(of_char (char_upper c) :: nat) =
     (if 97 \<le> (of_char c :: nat) \<and> (of_char c :: nat) \<le> 122 then of_char c - 32 else of_char c)"
proof (cases "97 \<le> (of_char c :: nat) \<and> (of_char c :: nat) \<le> 122")
  case True
  then have "(of_char c - 32 :: nat) < 256" by arith
  then have "(of_char c - 32 :: nat) mod 256 = of_char c - 32" by simp
  with True show ?thesis by (simp add: char_upper_def Let_def)
next
  case False
  then show ?thesis by (auto simp: char_upper_def Let_def)
qed

lemma is_digit_char_upper [simp]: "is_digit (char_upper c) = is_digit c"
  by (auto simp: is_digit_def of_char_char_upper Let_def)

lemma is_space_char_upper [simp]: "is_space (char_upper c) = is_space c"
  by (auto simp: is_space_def of_char_char_upper Let_def)

lemma char_upper_digit: "is_digit c \<Longrightarrow> char_upper c = c"
  by (auto simp: is_digit_def char_upper_def Let_def)

lemma char_upper_minus_iff: "char_upper c = CHR ''-'' \<longleftrightarrow> c = CHR ''-''"
proof
  assume h: "char_upper c = CHR ''-''"
  have "(of_char (char_upper c) :: nat) = 45" by (simp add: h)
  then have "\<not> (97 \<le> (of_char c :: nat) \<and> (of_char c :: nat) \<le> 122)"
    by (auto simp: of_char_char_upper split: if_splits)
  then have "char_upper c = c" by (auto simp: char_upper_def Let_def)
  with h show "c = CHR ''-''" by simp
next
  assume "c = CHR ''-''"
  then show "char_upper c = CHR ''-''" by (simp add: char_upper_def)
qed

lemma char_upper_plus_iff: "char_upper c = CHR ''+'' \<longleftrightarrow> c = CHR ''+''"
proof
  assume h: "char_upper c = CHR ''+''"
  have "(of_char (char_upper c) :: nat) = 43" by (simp add: h)
  then have "\<not> (97 \<le> (of_char c :: nat) \<and> (of_char c :: nat) \<le> 122)"
    by (auto simp: of_char_char_upper split: if_splits)
  then have "char_upper c = c" by (auto simp: char_upper_def Let_def)
  with h show "c = CHR ''+''" by simp
next
  assume "c = CHR ''+''"
  then show "char_upper c = CHR ''+''" by (simp add: char_upper_def)
qed

lemma upper_digits: "list_all is_digit ds \<Longrightarrow> upper ds = ds"
  by (induction ds) (auto simp: upper_def char_upper_digit)

lemma list_all_digit_upper [simp]: "list_all is_digit (upper ds) = list_all is_digit ds"
  by (induction ds) (auto simp: upper_def)

lemma parse_digits_upper: "parse_digits (upper ds) = parse_digits ds"
proof (cases "list_all is_digit ds")
  case True
  then show ?thesis by (simp add: upper_digits)
next
  case False
  then show ?thesis by (simp add: parse_digits_def)
qed

lemma dropWhile_space_upper: "dropWhile is_space (upper s) = upper (dropWhile is_space s)"
  by (induction s) (auto simp: upper_def)

lemma strip_upper: "strip (upper s) = upper (strip s)"
proof -
  have "rev (upper s) = upper (rev s)" for s
    by (simp add: upper_def rev_map)
  then show ?thesis
    by (simp add: strip_def dropWhile_space_upper)
qed

lemma py_int_upper: "py_int (upper s) = py_int s"
proof (cases "strip s")
  case Nil
  have "strip (upper s) = []" by (simp add: strip_upper Nil) (simp add: upper_def)
  then show ?thesis by (simp add: py_int_def Nil)
next
  case (Cons c cs)
  have u: "upper (c # cs) = char_upper c # upper cs" by (simp add: upper_def)
  have p: "parse_digits (char_upper c # upper cs) = parse_digits (c # cs)"
    using parse_digits_upper [of "c # cs"] by (simp add: u)
  have "strip (upper s) = char_upper c # upper cs"
    by (simp add: strip_upper Cons u)
  then show ?thesis
    by (simp add: py_int_def Cons char_upper_minus_iff char_upper_plus_iff
        parse_digits_upper p)
qed

lemma of_char_digit_char: "d < 10 \<Longrightarrow> (of_char (digit_char d) :: nat) = 48 + d"
  by (simp add: digit_char_def)

lemma is_digit_digit_char: "d < 10 \<Longrightarrow> is_digit (digit_char d)"
  by (simp add: is_digit_def of_char_digit_char Let_def)

lemma digit_val_digit_char: "d < 10 \<Longrightarrow> digit_val (digit_char d) = d"
  by (simp add: digit_val_def of_char_digit_char)

lemma digits_value_snoc: "digits_value (ds @ [c]) = 10 * digits_value ds + digit_val c"
  by (simp add: digits_value_def)

lemma nat_digits_not_Nil: "nat_digits n \<noteq> []"
  by (subst nat_digits.simps) simp

lemma nat_digits_all_digits: "list_all is_digit (nat_digits n)"
proof (induction n rule: nat_digits.induct)
  case (1 n)
  show ?case
  proof (cases "n < 10")
    case True
    then show ?thesis by (subst nat_digits.simps) (simp add: is_digit_digit_char)
  next
    case False
    with 1 show ?thesis by (subst nat_digits.simps) (simp add: is_digit_digit_char)
  qed
qed

lemma digits_value_nat_digits: "digits_value (nat_digits n) = n"
proof (induction n rule: nat_digits.induct)
  case (1 n)
  show ?case
  proof (cases "n < 10")
    case True
    then show ?thesis
      by (subst nat_digits.simps) (simp add: digits_value_def digit_val_digit_char)
  next
    case False
    with 1 have "digits_value (nat_digits (n div 10)) = n div 10" by simp
    with False show ?thesis
      by (subst nat_digits.simps) (simp add: digits_value_snoc digit_val_digit_char)
  qed
qed

lemma parse_digits_nat_digits: "parse_digits (nat_digits n) = Some (int n)"
  by (simp add: parse_digits_def nat_digits_not_Nil nat_digits_all_digits digits_value_nat_digits)

lemma digit_not_space: "is_digit c \<Longrightarrow> \<not> is_space c"
  by (auto simp: is_digit_def is_space_def Let_def)

lemma digit_not_sign: "is_digit c \<Longrightarrow> c \<noteq> CHR ''-'' \<and> c \<noteq> CHR ''+''"
  by (auto simp: is_digit_def Let_def)

lemma strip_no_space_ends:
  assumes "s \<noteq> []" "\<not> is_space (hd s)" "\<not> is_space (last s)"
  shows "strip s = s"
proof -
  from assms have a: "dropWhile is_space s = s" by (cases s) auto
  from assms have "rev s \<noteq> []" "\<not> is_space (hd (rev s))" by (auto simp: hd_rev)
  then have "dropWhile is_space (rev s) = rev s" by (cases "rev s") auto
  with a show ?thesis by (simp add: strip_def)
qed

lemma nat_digits_ends: "is_digit (hd (nat_digits n)) \<and> is_digit (last (nat_digits n))"
  using nat_digits_all_digits [of n] nat_digits_not_Nil [of n]
  by (auto simp: list_all_iff)

lemma py_int_py_str: "py_int (py_str i) = Some i"
proof (cases "i < 0")
  case True
  let ?ds = "nat_digits (nat (- i))"
  have "\<not> is_space (CHR ''-'')" by (simp add: is_space_def)
  moreover have "\<not> is_space (last ?ds)"
    using nat_digits_ends [of "nat (- i)"] by (simp add: digit_not_space)
  ultimately have "strip (CHR ''-'' # ?ds) = CHR ''-'' # ?ds"
    using nat_digits_not_Nil [of "nat (- i)"]
    by (intro strip_no_space_ends) auto
  with True show ?thesis
    by (simp add: py_int_def py_str_def parse_digits_nat_digits)
next
  case False
  let ?ds = "nat_digits (nat i)"
  have s: "strip ?ds = ?ds"
    using nat_digits_ends [of "nat i"] nat_digits_not_Nil [of "nat i"]
    by (intro strip_no_space_ends) (auto simp: digit_not_space)
  obtain c cs where c: "?ds = c # cs" using nat_digits_not_Nil [of "nat i"] by (cases ?ds) auto
  then have "is_digit c" using nat_digits_ends [of "nat i"] by simp
  then have "c \<noteq> CHR ''-''" "c \<noteq> CHR ''+''" using digit_not_sign by auto
  moreover have "parse_digits (c # cs) = Some i"
    using parse_digits_nat_digits [of "nat i"] False by (simp add: c)
  ultimately show ?thesis using False s
    by (simp add: py_int_def py_str_def c)
qed

lemma py_str_chars: "list_all (\<lambda>c. is_digit c \<or> c = CHR ''-'') (py_str i)"
  using nat_digits_all_digits [of "nat i"] nat_digits_all_digits [of "nat (- i)"]
  by (auto simp: py_str_def list_all_iff)

lemma upper_py_str: "upper (py_str i) = py_str i"
proof -
  have "list_all (\<lambda>c. is_digit c \<or> c = CHR ''-'') s \<Longrightarrow> upper s = s" for s
    by (induction s) (auto simp: upper_def char_upper_digit char_upper_minus_iff)
  then show ?thesis using py_str_chars by blast
qed

lemma py_str_not_special:
  "py_str i \<noteq> ''X''" "py_str i \<noteq> ''Y''" "py_str i \<noteq> ''XY''" "py_str i \<noteq> ''MT''"
  using py_str_chars [of i] by (auto simp: is_digit_def Let_def)

lemma encode_chr_py_str: "encode_chr (py_str n) = Inr n"
  by (simp add: encode_chr_def upper_py_str py_str_not_special py_int_py_str)

lemma encode_chr_int:
  "upper l \<notin> {''X'', ''Y'', ''XY'', ''MT''} \<Longrightarrow> encode_chr l = (case py_int l of Some n \<Rightarrow> Inr n | None \<Rightarrow> Inl (ProgramError (upper l @ '': not a valid chromosome'')))"
  by (simp add: encode_chr_def py_int_upper)

section \<open>The chromosome encoder\<close>

text \<open>
  Claim C4.  \<^verbatim>\<open>encode_chr\<close> compares the label in upper case, so \<^verbatim>\<open>X\<close>, \<^verbatim>\<open>Y\<close>, \<^verbatim>\<open>XY\<close> and
  \<^verbatim>\<open>MT\<close> are matched whatever their case and give 23, 24, 25 and 26.  Any other label gives
  the integer the builtin \<^verbatim>\<open>int\<close> reads from the label itself (upper case changes no
  numeral), with no check of its range: every integer \<open>n\<close>, written in decimal, comes back
  as \<open>n\<close>, also above 26, zero or negative.  A label that is neither raises
  \<^verbatim>\<open>ProgramError\<close>, and the message names the label, in the upper case in which it was
  compared.
\<close>

theorem encode_chr_labels:
  "(upper l = ''X'' \<longrightarrow> encode_chr l = Inr 23) \<and>
   (upper l = ''Y'' \<longrightarrow> encode_chr l = Inr 24) \<and>
   (upper l = ''XY'' \<longrightarrow> encode_chr l = Inr 25) \<and>
   (upper l = ''MT'' \<longrightarrow> encode_chr l = Inr 26) \<and>
   (upper l \<notin> {''X'', ''Y'', ''XY'', ''MT''} \<longrightarrow>
      (\<forall>n. py_int l = Some n \<longrightarrow> encode_chr l = Inr n) \<and>
      (py_int l = None \<longrightarrow>
         encode_chr l = Inl (ProgramError (upper l @ '': not a valid chromosome'')))) \<and>
   encode_chr (py_str n) = Inr n"
proof -
  have special: "upper l = ''X'' \<longrightarrow> encode_chr l = Inr 23"
    "upper l = ''Y'' \<longrightarrow> encode_chr l = Inr 24"
    "upper l = ''XY'' \<longrightarrow> encode_chr l = Inr 25"
    "upper l = ''MT'' \<longrightarrow> encode_chr l = Inr 26"
    by (simp_all add: encode_chr_def)
  have other: "upper l \<notin> {''X'', ''Y'', ''XY'', ''MT''} \<longrightarrow>
      (\<forall>n. py_int l = Some n \<longrightarrow> encode_chr l = Inr n) \<and>
      (py_int l = None \<longrightarrow>
         encode_chr l = Inl (ProgramError (upper l @ '': not a valid chromosome'')))"
    by (simp add: encode_chr_int)
  show ?thesis using special other encode_chr_py_str by blast
qed

theorem encode_chr_labels_witness:
  "upper ''x'' = ''X'' \<and> encode_chr ''x'' = Inr 23 \<and>
   upper ''y'' = ''Y'' \<and> encode_chr ''y'' = Inr 24 \<and>
   upper ''Xy'' = ''XY'' \<and> encode_chr ''Xy'' = Inr 25 \<and>
   upper ''mt'' = ''MT'' \<and> encode_chr ''mt'' = Inr 26 \<and>
   py_int ''27'' = Some 27 \<and> encode_chr ''27'' = Inr 27 \<and>
   py_int ''0'' = Some 0 \<and> encode_chr ''0'' = Inr 0 \<and>
   py_int ''-4'' = Some (- 4) \<and> encode_chr ''-4'' = Inr (- 4) \<and>
   py_int ''chrUn'' = None \<and>
   encode_chr ''chrUn'' = Inl (ProgramError ''CHRUN: not a valid chromosome'')"
proof -
  have u: "upper ''x'' = ''X''" "upper ''y'' = ''Y''" "upper ''Xy'' = ''XY''"
    "upper ''mt'' = ''MT''" "upper ''chrUn'' = ''CHRUN''" "upper ''27'' = ''27''"
    "upper ''0'' = ''0''" "upper ''-4'' = ''-4''"
    by code_simp+
  have p: "py_int ''27'' = Some 27" "py_int ''0'' = Some 0" "py_int ''-4'' = Some (- 4)"
    "py_int ''chrUn'' = None"
    by code_simp+
  show ?thesis
    using encode_chr_labels [of "''x''"] encode_chr_labels [of "''y''"]
      encode_chr_labels [of "''Xy''"] encode_chr_labels [of "''mt''"]
      encode_chr_labels [of "''27''"] encode_chr_labels [of "''0''"]
      encode_chr_labels [of "''-4''"] encode_chr_labels [of "''chrUn''"]
    by (simp add: u p)
qed

section \<open>Facts about the table reader\<close>

lemma read_row_excluded:
  assumes "get_field row hi (col_chr opts) = Inr label" "encode_chr label = Inr c"
    "c \<in> exclude_chr opts"
  shows "read_row pf f phys pv opts hi row = Inr None"
  using assms by (simp add: read_row_def)

lemma read_row_Some:
  assumes "read_row pf f phys pv opts hi row = Inr (Some m)"
  shows "\<exists>label ptext ctext.
           get_field row hi (col_chr opts) = Inr label \<and> encode_chr label = Inr (chr m) \<and>
           chr m \<notin> exclude_chr opts \<and>
           get_field row hi (position_column phys opts) = Inr ptext \<and>
           parse_position pf phys ptext = Some (pos m) \<and>
           get_field row hi (confidence_column pv opts) = Inr ctext \<and>
           upper ctext \<noteq> ''NA'' \<and> upper ctext \<noteq> ''NAN'' \<and> pf ctext = Some (conf m) \<and>
           get_field row hi (col_name opts) = Inr (name m)"
  using assms
  by (auto simp: read_row_def split: sum.splits option.splits if_splits)

lemma read_row_error_not_excluded:
  assumes "read_row pf f phys pv opts hi row = Inl e"
    "get_field row hi (col_chr opts) = Inr label" "encode_chr label = Inr c"
  shows "c \<notin> exclude_chr opts"
  using assms by (auto simp: read_row_def)

lemma read_rows_append:
  "read_rows pf f phys pv opts hi (xs @ ys) =
     (case read_rows pf f phys pv opts hi xs of
        Inl e \<Rightarrow> Inl e
      | Inr ms \<Rightarrow>
          (case read_rows pf f phys pv opts hi ys of
             Inl e \<Rightarrow> Inl e
           | Inr ns \<Rightarrow> Inr (ms @ ns)))"
  by (induction xs) (auto split: sum.splits option.splits)

lemma read_rows_skip:
  assumes "read_row pf f phys pv opts hi (split_line line) = Inr None"
  shows "read_rows pf f phys pv opts hi (before @ line # after) =
         read_rows pf f phys pv opts hi (before @ after)"
  using assms by (simp add: read_rows_append split: sum.splits)

lemma read_rows_abort:
  assumes "read_rows pf f phys pv opts hi before = Inr ms"
    "read_row pf f phys pv opts hi (split_line line) = Inl e"
  shows "read_rows pf f phys pv opts hi (before @ line # after) = Inl e"
  using assms by (simp add: read_rows_append)

lemma read_rows_mem:
  assumes "read_rows pf f phys pv opts hi ls = Inr ms" "m \<in> set ms"
  shows "\<exists>line \<in> set ls. read_row pf f phys pv opts hi (split_line line) = Inr (Some m)"
  using assms
proof (induction ls arbitrary: ms)
  case Nil
  then show ?case by simp
next
  case (Cons l ls)
  then show ?case
    by (auto split: sum.splits option.splits)
qed

lemma set_sort_records [simp]: "set (sort_records data) = set data"
  by (simp add: sort_records_def)

lemma mset_sort_records [simp]: "mset (sort_records data) = mset data"
  by (simp add: sort_records_def)

lemma length_sort_records [simp]: "length (sort_records data) = length data"
  by (simp add: sort_records_def)

lemma chr_transform_conf [simp]: "map chr (transform_conf pv data) = map chr data"
  by (simp add: transform_conf_def)

lemma pos_transform_conf [simp]: "map pos (transform_conf pv data) = map pos data"
  by (simp add: transform_conf_def)

lemma name_transform_conf [simp]: "map name (transform_conf pv data) = map name data"
  by (simp add: transform_conf_def)

lemma length_transform_conf [simp]: "length (transform_conf pv data) = length data"
  by (simp add: transform_conf_def)

lemma read_input_file_Inr:
  assumes "read_input_file pf f inFile phys pv opts = Inr ds"
  shows "\<exists>data. parse_file pf f inFile phys pv opts = Inr data \<and> data \<noteq> [] \<and>
           ds = transform_conf pv (sort_records data)"
  using assms
  by (auto simp: read_input_file_def np_array_def split: sum.splits if_splits)

lemma parse_file_Inr_nonempty:
  assumes "parse_file pf f inFile phys pv opts = Inr data" "data \<noteq> []"
  shows "\<exists>header rest. inFile = header # rest \<and>
           check_header f (header_index (split_line header)) (colNames phys pv opts) = None \<and>
           read_rows pf f phys pv opts (header_index (split_line header)) rest = Inr data"
  using assms
  by (cases inFile) (auto simp: parse_file_def Let_def split: option.splits)

lemma read_input_file_empty:
  assumes "parse_file pf f inFile phys pv opts = Inr []"
  shows "read_input_file pf f inFile phys pv opts = Inl ValueError"
  using assms by (simp add: read_input_file_def np_array_def)

lemma parse_file_skip:
  assumes "read_row pf f phys pv opts (header_index (split_line header)) (split_line line) = Inr None"
  shows "parse_file pf f (header # before @ line # after) phys pv opts =
         parse_file pf f (header # before @ after) phys pv opts"
  using assms by (simp add: parse_file_def Let_def read_rows_skip split: option.splits)

lemma read_input_file_skip:
  assumes "read_row pf f phys pv opts (header_index (split_line header)) (split_line line) = Inr None"
  shows "read_input_file pf f (header # before @ line # after) phys pv opts =
         read_input_file pf f (header # before @ after) phys pv opts"
  using assms by (simp add: read_input_file_def parse_file_skip)

lemma read_input_file_abort:
  assumes "check_header f (header_index (split_line header)) (colNames phys pv opts) = None"
    "read_rows pf f phys pv opts (header_index (split_line header)) before = Inr ms"
    "read_row pf f phys pv opts (header_index (split_line header)) (split_line line) = Inl e"
  shows "read_input_file pf f (header # before @ line # after) phys pv opts = Inl e"
  using assms by (simp add: read_input_file_def parse_file_def Let_def read_rows_abort)

lemma read_input_file_eval:
  assumes "parse_file pf f inFile phys pv opts = Inr data" "data \<noteq> []"
    "list_all (\<lambda>m. fits_int64 (real_of_int (chr m)) \<and> (phys \<longrightarrow> fits_int64 (pos m))) data"
  shows "read_input_file pf f inFile phys pv opts = Inr (transform_conf pv (sort_records data))"
  using assms
  by (auto simp: read_input_file_def np_array_def list_all_iff list_ex_iff)

lemma encode_chr_positive:
  assumes "encode_chr label = Inr k"
  shows "0 < k \<longleftrightarrow>
           upper label \<in> {''X'', ''Y'', ''XY'', ''MT''} \<or> (\<exists>n. py_int label = Some n \<and> 0 < n)"
  using assms
  by (auto simp: encode_chr_def Let_def py_int_upper split: if_splits option.splits)


section \<open>Rows on excluded chromosomes\<close>

text \<open>
  Claim C10.  A row whose chromosome label encodes to a code in \<^verbatim>\<open>options.exclude_chr\<close> is
  skipped as soon as the code is known: the position and the confidence of the row are
  never looked at, whatever they hold and whatever \<^verbatim>\<open>float\<close> would make of them.  The
  row yields \<^verbatim>\<open>continue\<close>, and the file with the row reads exactly as the file without it.
  Hence a row that raises, and whose chromosome label encodes, is on a chromosome that is
  not excluded: only such rows can end the read at the position or the confidence.
\<close>

theorem excluded_row_skipped:
  assumes "hi = header_index (split_line header)"
    and "get_field (split_line line) hi (col_chr opts) = Inr label"
    and "encode_chr label = Inr c"
    and "c \<in> exclude_chr opts"
  shows "read_row pf f phys pv opts hi (split_line line) = Inr None \<and>
         read_rows pf f phys pv opts hi (before @ line # after) =
           read_rows pf f phys pv opts hi (before @ after) \<and>
         read_input_file pf f (header # before @ line # after) phys pv opts =
           read_input_file pf f (header # before @ after) phys pv opts \<and>
         (\<forall>row' label' c' e.
            get_field row' hi (col_chr opts) = Inr label' \<and> encode_chr label' = Inr c' \<and>
            read_row pf f phys pv opts hi row' = Inl e \<longrightarrow> c' \<notin> exclude_chr opts)"
proof -
  have skip: "read_row pf f phys pv opts hi (split_line line) = Inr None"
    using assms by (simp add: read_row_excluded)
  have rows: "read_rows pf f phys pv opts hi (before @ line # after) =
           read_rows pf f phys pv opts hi (before @ after)"
    using skip by (rule read_rows_skip)
  have whole: "read_input_file pf f (header # before @ line # after) phys pv opts =
           read_input_file pf f (header # before @ after) phys pv opts"
    using skip assms(1) by (simp add: read_input_file_skip)
  have only: "\<forall>row' label' c' e.
            get_field row' hi (col_chr opts) = Inr label' \<and> encode_chr label' = Inr c' \<and>
            read_row pf f phys pv opts hi row' = Inl e \<longrightarrow> c' \<notin> exclude_chr opts"
    using read_row_error_not_excluded by blast
  show ?thesis using skip rows whole only by blast
qed

theorem excluded_row_skipped_witness:
  "get_field (split_line (tsv_line [''X'', ''rs9'', ''abc'', ''xyz'']))
      (header_index (split_line (tsv_line [''chr'', ''name'', ''cm'', ''lod''])))
      (col_chr (default_options\<lparr>exclude_chr := {23}\<rparr>)) = Inr ''X'' \<and>
   encode_chr ''X'' = Inr 23 \<and>
   (23 :: int) \<in> exclude_chr (default_options\<lparr>exclude_chr := {23}\<rparr>) \<and>
   parse_position float_decimal False ''abc'' = None \<and>
   float_decimal ''xyz'' = None \<and>
   read_row float_decimal ''f.txt'' False False (default_options\<lparr>exclude_chr := {23}\<rparr>)
      (header_index (split_line (tsv_line [''chr'', ''name'', ''cm'', ''lod''])))
      (split_line (tsv_line [''X'', ''rs9'', ''abc'', ''xyz''])) = Inr None \<and>
   read_input_file float_decimal ''f.txt''
      [tsv_line [''chr'', ''name'', ''cm'', ''lod''], tsv_line [''1'', ''rs1'', ''10'', ''2.5''],
       tsv_line [''X'', ''rs9'', ''abc'', ''xyz'']]
      False False (default_options\<lparr>exclude_chr := {23}\<rparr>) =
   read_input_file float_decimal ''f.txt''
      [tsv_line [''chr'', ''name'', ''cm'', ''lod''], tsv_line [''1'', ''rs1'', ''10'', ''2.5'']]
      False False (default_options\<lparr>exclude_chr := {23}\<rparr>)"
proof -
  let ?opts = "default_options\<lparr>exclude_chr := {23}\<rparr>"
  let ?hi = "header_index (split_line (tsv_line [''chr'', ''name'', ''cm'', ''lod'']))"
  have a: "get_field (split_line (tsv_line [''X'', ''rs9'', ''abc'', ''xyz''])) ?hi (col_chr ?opts)
             = Inr ''X''"
    by code_simp
  have b: "encode_chr ''X'' = Inr 23" by code_simp
  have c: "(23 :: int) \<in> exclude_chr ?opts" by (simp add: default_options_def)
  have d: "parse_position float_decimal False ''abc'' = None" "float_decimal ''xyz'' = None"
    by code_simp+
  have t: "read_row float_decimal ''f.txt'' False False ?opts ?hi
              (split_line (tsv_line [''X'', ''rs9'', ''abc'', ''xyz''])) = Inr None \<and>
           read_input_file float_decimal ''f.txt''
              (tsv_line [''chr'', ''name'', ''cm'', ''lod''] #
               [tsv_line [''1'', ''rs1'', ''10'', ''2.5'']] @
               tsv_line [''X'', ''rs9'', ''abc'', ''xyz''] # []) False False ?opts =
           read_input_file float_decimal ''f.txt''
              (tsv_line [''chr'', ''name'', ''cm'', ''lod''] #
               [tsv_line [''1'', ''rs1'', ''10'', ''2.5'']] @ []) False False ?opts"
    using excluded_row_skipped [OF refl a b c, of float_decimal "''f.txt''" False False
        "[tsv_line [''1'', ''rs1'', ''10'', ''2.5'']]" "[]"]
    by blast
  have e: "xs @ [] = xs" "[x] @ y # [] = [x, y]" for x y :: string and xs
    by simp_all
  show ?thesis
    using t unfolding e by (simp only: a b c d simp_thms)
qed


section \<open>The confidence field\<close>

text \<open>
  Claim C5 as it is worded speaks of every row of the file.  The reader looks at the
  confidence only after the chromosome and the position: a row with confidence \<^verbatim>\<open>NA\<close>
  and position \<^verbatim>\<open>abc\<close> ends the read with \<^verbatim>\<open>abc: invalid position in f.txt\<close>, and a row
  with the confidence \<^verbatim>\<open>abc\<close> on an excluded chromosome is skipped and raises nothing.
\<close>

theorem na_with_bad_position_counterexample:
  "upper ''NA'' = ''NA'' \<and>
   read_input_file float_decimal ''f.txt''
      [tsv_line [''chr'', ''name'', ''cm'', ''lod''], tsv_line [''1'', ''rs1'', ''abc'', ''NA''],
       tsv_line [''1'', ''rs2'', ''20'', ''4.0'']]
      False False default_options = Inl (ProgramError ''abc: invalid position in f.txt'') \<and>
   upper ''abc'' \<noteq> ''NA'' \<and> upper ''abc'' \<noteq> ''NAN'' \<and> float_decimal ''abc'' = None \<and>
   read_input_file float_decimal ''f.txt''
      [tsv_line [''chr'', ''name'', ''cm'', ''lod''], tsv_line [''X'', ''rs1'', ''10'', ''abc''],
       tsv_line [''1'', ''rs2'', ''20'', ''4.0'']]
      False False (default_options\<lparr>exclude_chr := {23}\<rparr>) =
   Inr [\<lparr>chr = 1, pos = 20, name = ''rs2'', conf = 4\<rparr>]"
proof -
  have u: "upper ''NA'' = ''NA''" "upper ''abc'' \<noteq> ''NA''" "upper ''abc'' \<noteq> ''NAN''"
    "float_decimal ''abc'' = None"
    by code_simp+
  have p1: "parse_file float_decimal ''f.txt''
      [tsv_line [''chr'', ''name'', ''cm'', ''lod''], tsv_line [''1'', ''rs1'', ''abc'', ''NA''],
       tsv_line [''1'', ''rs2'', ''20'', ''4.0'']]
      False False default_options = Inl (ProgramError ''abc: invalid position in f.txt'')"
    by code_simp
  have p2: "parse_file float_decimal ''f.txt''
      [tsv_line [''chr'', ''name'', ''cm'', ''lod''], tsv_line [''X'', ''rs1'', ''10'', ''abc''],
       tsv_line [''1'', ''rs2'', ''20'', ''4.0'']]
      False False (default_options\<lparr>exclude_chr := {23}\<rparr>) =
      Inr [\<lparr>chr = 1, pos = 20, name = ''rs2'', conf = 4\<rparr>]"
    by code_simp
  have r1: "read_input_file float_decimal ''f.txt''
      [tsv_line [''chr'', ''name'', ''cm'', ''lod''], tsv_line [''1'', ''rs1'', ''abc'', ''NA''],
       tsv_line [''1'', ''rs2'', ''20'', ''4.0'']]
      False False default_options = Inl (ProgramError ''abc: invalid position in f.txt'')"
    by (simp add: read_input_file_def p1)
  have r2: "read_input_file float_decimal ''f.txt''
      [tsv_line [''chr'', ''name'', ''cm'', ''lod''], tsv_line [''X'', ''rs1'', ''10'', ''abc''],
       tsv_line [''1'', ''rs2'', ''20'', ''4.0'']]
      False False (default_options\<lparr>exclude_chr := {23}\<rparr>) =
      Inr [\<lparr>chr = 1, pos = 20, name = ''rs2'', conf = 4\<rparr>]"
    by (subst read_input_file_eval [OF p2])
       (simp_all add: fits_int64_def transform_conf_def sort_records_def)
  show ?thesis using u r1 r2 by blast
qed

text \<open>
  Claim C5, amended.  For a row that reaches the confidence (its chromosome label encodes
  to a code that is not excluded, and its position is read): when the confidence is
  \<^verbatim>\<open>NA\<close> or \<^verbatim>\<open>NAN\<close> in any mix of cases the row is skipped, and the file reads as it
  does without the row; when it is any other text that \<^verbatim>\<open>float\<close> rejects, the row raises
  \<^verbatim>\<open>ProgramError\<close> with the message \<^verbatim>\<open><text>: invalid confidence in <file>\<close>, and so does
  the whole read if no earlier row raised: no dataset is returned.
\<close>

theorem confidence_field_handling:
  assumes "hi = header_index (split_line header)"
    and "check_header f hi (colNames phys pv opts) = None"
    and "get_field (split_line line) hi (col_chr opts) = Inr label"
    and "encode_chr label = Inr c"
    and "c \<notin> exclude_chr opts"
    and "get_field (split_line line) hi (position_column phys opts) = Inr ptext"
    and "parse_position pf phys ptext = Some p"
    and "get_field (split_line line) hi (confidence_column pv opts) = Inr ctext"
  shows "(upper ctext = ''NA'' \<or> upper ctext = ''NAN'' \<longrightarrow>
            read_row pf f phys pv opts hi (split_line line) = Inr None \<and>
            read_input_file pf f (header # before @ line # after) phys pv opts =
              read_input_file pf f (header # before @ after) phys pv opts) \<and>
         (upper ctext \<noteq> ''NA'' \<and> upper ctext \<noteq> ''NAN'' \<and> pf ctext = None \<longrightarrow>
            read_row pf f phys pv opts hi (split_line line) =
              Inl (ProgramError (ctext @ '': invalid confidence in '' @ f)) \<and>
            (\<forall>ms. read_rows pf f phys pv opts hi before = Inr ms \<longrightarrow>
               read_input_file pf f (header # before @ line # after) phys pv opts =
                 Inl (ProgramError (ctext @ '': invalid confidence in '' @ f))))"
proof (intro conjI impI allI)
  assume na: "upper ctext = ''NA'' \<or> upper ctext = ''NAN''"
  show skip: "read_row pf f phys pv opts hi (split_line line) = Inr None"
    using assms na by (auto simp: read_row_def)
  show "read_input_file pf f (header # before @ line # after) phys pv opts =
          read_input_file pf f (header # before @ after) phys pv opts"
    using skip assms(1) by (simp add: read_input_file_skip)
next
  assume bad: "upper ctext \<noteq> ''NA'' \<and> upper ctext \<noteq> ''NAN'' \<and> pf ctext = None"
  show "read_row pf f phys pv opts hi (split_line line) =
          Inl (ProgramError (ctext @ '': invalid confidence in '' @ f))"
    using assms bad by (simp add: read_row_def)
next
  fix ms
  assume bad: "upper ctext \<noteq> ''NA'' \<and> upper ctext \<noteq> ''NAN'' \<and> pf ctext = None"
    and before: "read_rows pf f phys pv opts hi before = Inr ms"
  have "read_row pf f phys pv opts hi (split_line line) =
          Inl (ProgramError (ctext @ '': invalid confidence in '' @ f))"
    using assms bad by (simp add: read_row_def)
  then show "read_input_file pf f (header # before @ line # after) phys pv opts =
          Inl (ProgramError (ctext @ '': invalid confidence in '' @ f))"
    using assms(1,2) before by (simp add: read_input_file_abort)
qed

theorem confidence_field_handling_witness:
  "upper ''NaN'' = ''NAN'' \<and> upper ''na'' = ''NA'' \<and> upper ''NA'' = ''NA'' \<and>
   read_input_file float_decimal ''f.txt''
      [tsv_line [''chr'', ''name'', ''cm'', ''lod''], tsv_line [''1'', ''rs1'', ''10'', ''2.5''],
       tsv_line [''1'', ''rs2'', ''20'', ''NaN'']]
      False False default_options =
   Inr [\<lparr>chr = 1, pos = 10, name = ''rs1'', conf = 5 / 2\<rparr>] \<and>
   upper ''abc'' \<noteq> ''NA'' \<and> upper ''abc'' \<noteq> ''NAN'' \<and> float_decimal ''abc'' = None \<and>
   read_input_file float_decimal ''f.txt''
      [tsv_line [''chr'', ''name'', ''cm'', ''lod''], tsv_line [''1'', ''rs1'', ''10'', ''2.5''],
       tsv_line [''1'', ''rs2'', ''20'', ''abc''], tsv_line [''2'', ''rs3'', ''5'', ''1.0'']]
      False False default_options =
   Inl (ProgramError ''abc: invalid confidence in f.txt'')"
proof -
  let ?header = "tsv_line [''chr'', ''name'', ''cm'', ''lod'']"
  let ?hi = "header_index (split_line ?header)"
  let ?good = "tsv_line [''1'', ''rs1'', ''10'', ''2.5'']"
  let ?na = "tsv_line [''1'', ''rs2'', ''20'', ''NaN'']"
  let ?bad = "tsv_line [''1'', ''rs2'', ''20'', ''abc'']"
  let ?last = "tsv_line [''2'', ''rs3'', ''5'', ''1.0'']"
  have u: "upper ''NaN'' = ''NAN''" "upper ''na'' = ''NA''" "upper ''NA'' = ''NA''"
    "upper ''abc'' \<noteq> ''NA''" "upper ''abc'' \<noteq> ''NAN''" "float_decimal ''abc'' = None"
    by code_simp+
  have hdr: "check_header ''f.txt'' ?hi (colNames False False default_options) = None"
    by code_simp
  have na: "get_field (split_line ?na) ?hi (col_chr default_options) = Inr ''1''"
    "get_field (split_line ?na) ?hi (position_column False default_options) = Inr ''20''"
    "get_field (split_line ?na) ?hi (confidence_column False default_options) = Inr ''NaN''"
    by code_simp+
  have bad: "get_field (split_line ?bad) ?hi (col_chr default_options) = Inr ''1''"
    "get_field (split_line ?bad) ?hi (position_column False default_options) = Inr ''20''"
    "get_field (split_line ?bad) ?hi (confidence_column False default_options) = Inr ''abc''"
    by code_simp+
  have enc: "encode_chr ''1'' = Inr 1" by code_simp
  have nex: "(1 :: int) \<notin> exclude_chr default_options" by (simp add: default_options_def)
  have pp: "parse_position float_decimal False ''20'' = Some 20" by code_simp
  have before: "read_rows float_decimal ''f.txt'' False False default_options ?hi [?good] =
                  Inr [\<lparr>chr = 1, pos = 10, name = ''rs1'', conf = 5 / 2\<rparr>]"
    by code_simp
  have short: "parse_file float_decimal ''f.txt'' [?header, ?good] False False default_options =
                 Inr [\<lparr>chr = 1, pos = 10, name = ''rs1'', conf = 5 / 2\<rparr>]"
    by code_simp
  have rshort: "read_input_file float_decimal ''f.txt'' [?header, ?good] False False
                  default_options = Inr [\<lparr>chr = 1, pos = 10, name = ''rs1'', conf = 5 / 2\<rparr>]"
    by (subst read_input_file_eval [OF short])
       (simp_all add: fits_int64_def transform_conf_def sort_records_def)
  have e: "[x] @ y # [] = [x, y]" "[x] @ [] = [x]" "[x] @ y # [z] = [x, y, z]"
    for x y z :: string
    by simp_all
  have t1: "read_input_file float_decimal ''f.txt'' (?header # [?good] @ ?na # []) False False
              default_options =
            read_input_file float_decimal ''f.txt'' (?header # [?good] @ []) False False
              default_options"
    using confidence_field_handling [OF refl hdr na(1) enc nex na(2) pp na(3),
        of "[?good]" "[]"] u
    by blast
  have t2: "read_input_file float_decimal ''f.txt'' (?header # [?good] @ ?bad # [?last]) False
              False default_options = Inl (ProgramError (''abc'' @ '': invalid confidence in '' @ ''f.txt''))"
    using confidence_field_handling [OF refl hdr bad(1) enc nex bad(2) pp bad(3),
        of "[?good]" "[?last]"] u before
    by blast
  have m: "''abc'' @ '': invalid confidence in '' @ ''f.txt'' = ''abc: invalid confidence in f.txt''"
    by simp
  show ?thesis
    using t1 t2 rshort u unfolding e m by (simp only: simp_thms)
qed


section \<open>The chromosome codes of a dataset\<close>

text \<open>
  Claim C8 as it is worded: every record of a dataset that was read has a positive
  chromosome code.  \<^verbatim>\<open>encode_chr\<close> checks no range (its documentation says so), and the
  reader adds no check: the labels \<^verbatim>\<open>0\<close> and \<^verbatim>\<open>-2\<close> give records with the codes 0 and -2.
\<close>

theorem nonpositive_chromosome_counterexample:
  "read_input_file float_decimal ''f.txt''
      [tsv_line [''chr'', ''name'', ''cm'', ''lod''], tsv_line [''0'', ''rs1'', ''10'', ''2.5''],
       tsv_line [''-2'', ''rs2'', ''20'', ''4.0'']]
      False False default_options =
   Inr [\<lparr>chr = - 2, pos = 20, name = ''rs2'', conf = 4\<rparr>,
        \<lparr>chr = 0, pos = 10, name = ''rs1'', conf = 5 / 2\<rparr>]"
proof -
  have p: "parse_file float_decimal ''f.txt''
      [tsv_line [''chr'', ''name'', ''cm'', ''lod''], tsv_line [''0'', ''rs1'', ''10'', ''2.5''],
       tsv_line [''-2'', ''rs2'', ''20'', ''4.0'']]
      False False default_options =
      Inr [\<lparr>chr = 0, pos = 10, name = ''rs1'', conf = 5 / 2\<rparr>,
           \<lparr>chr = - 2, pos = 20, name = ''rs2'', conf = 4\<rparr>]"
    by code_simp
  show ?thesis
    by (subst read_input_file_eval [OF p])
       (simp_all add: fits_int64_def transform_conf_def sort_records_def sort_order_def)
qed

text \<open>
  Claim C8, amended.  Every record of a dataset that was read carries the code that
  \<^verbatim>\<open>encode_chr\<close> gives for the chromosome label of a line after the header, and this code
  is not excluded.  The code is positive exactly when the label is \<^verbatim>\<open>X\<close>, \<^verbatim>\<open>Y\<close>, \<^verbatim>\<open>XY\<close> or
  \<^verbatim>\<open>MT\<close> in any case or is read by \<^verbatim>\<open>int\<close> as a positive integer; a label that reads as
  zero or as a negative integer gives a record with that code.
\<close>

theorem read_chromosome_codes:
  assumes "read_input_file pf f inFile phys pv opts = Inr ds" and "m \<in> set ds"
  shows "\<exists>header rest line label.
           inFile = header # rest \<and> line \<in> set rest \<and>
           get_field (split_line line) (header_index (split_line header)) (col_chr opts) =
             Inr label \<and>
           encode_chr label = Inr (chr m) \<and>
           chr m \<notin> exclude_chr opts \<and>
           (0 < chr m \<longleftrightarrow>
              upper label \<in> {''X'', ''Y'', ''XY'', ''MT''} \<or>
              (\<exists>n. py_int label = Some n \<and> 0 < n))"
proof -
  from assms(1) obtain data where data: "parse_file pf f inFile phys pv opts = Inr data"
    "data \<noteq> []" "ds = transform_conf pv (sort_records data)"
    using read_input_file_Inr by blast
  from data(1,2) obtain header rest where shape: "inFile = header # rest"
    "read_rows pf f phys pv opts (header_index (split_line header)) rest = Inr data"
    using parse_file_Inr_nonempty by blast
  have "chr m \<in> set (map chr ds)" using assms(2) by simp
  then have "chr m \<in> set (map chr (sort_records data))" by (simp add: data(3))
  then obtain m' where m': "m' \<in> set data" "chr m' = chr m" by auto
  from read_rows_mem [OF shape(2) m'(1)] obtain line where line: "line \<in> set rest"
    "read_row pf f phys pv opts (header_index (split_line header)) (split_line line) =
       Inr (Some m')"
    by blast
  from read_row_Some [OF line(2)] obtain label where label:
    "get_field (split_line line) (header_index (split_line header)) (col_chr opts) = Inr label"
    "encode_chr label = Inr (chr m')" "chr m' \<notin> exclude_chr opts"
    by blast
  have "0 < chr m' \<longleftrightarrow>
          upper label \<in> {''X'', ''Y'', ''XY'', ''MT''} \<or> (\<exists>n. py_int label = Some n \<and> 0 < n)"
    using label(2) by (rule encode_chr_positive)
  with shape(1) line(1) label m'(2) show ?thesis by metis
qed

theorem read_chromosome_codes_witness:
  "read_input_file float_decimal ''f.txt''
      [tsv_line [''chr'', ''name'', ''cm'', ''lod''], tsv_line [''0'', ''rs1'', ''10'', ''2.5''],
       tsv_line [''X'', ''rs2'', ''20'', ''4.0'']]
      False False default_options =
   Inr [\<lparr>chr = 0, pos = 10, name = ''rs1'', conf = 5 / 2\<rparr>,
        \<lparr>chr = 23, pos = 20, name = ''rs2'', conf = 4\<rparr>] \<and>
   (\<exists>header rest line label.
      [tsv_line [''chr'', ''name'', ''cm'', ''lod''], tsv_line [''0'', ''rs1'', ''10'', ''2.5''],
       tsv_line [''X'', ''rs2'', ''20'', ''4.0'']] = header # rest \<and>
      line \<in> set rest \<and>
      get_field (split_line line) (header_index (split_line header)) (col_chr default_options) =
        Inr label \<and>
      encode_chr label = Inr (chr \<lparr>chr = 23, pos = 20, name = ''rs2'', conf = 4\<rparr>) \<and>
      chr \<lparr>chr = 23, pos = 20, name = ''rs2'', conf = 4\<rparr> \<notin> exclude_chr default_options \<and>
      (0 < chr \<lparr>chr = 23, pos = 20, name = ''rs2'', conf = 4\<rparr> \<longleftrightarrow>
         upper label \<in> {''X'', ''Y'', ''XY'', ''MT''} \<or>
         (\<exists>n. py_int label = Some n \<and> 0 < n)))"
proof -
  have p: "parse_file float_decimal ''f.txt''
      [tsv_line [''chr'', ''name'', ''cm'', ''lod''], tsv_line [''0'', ''rs1'', ''10'', ''2.5''],
       tsv_line [''X'', ''rs2'', ''20'', ''4.0'']]
      False False default_options =
      Inr [\<lparr>chr = 0, pos = 10, name = ''rs1'', conf = 5 / 2\<rparr>,
           \<lparr>chr = 23, pos = 20, name = ''rs2'', conf = 4\<rparr>]"
    by code_simp
  have r: "read_input_file float_decimal ''f.txt''
      [tsv_line [''chr'', ''name'', ''cm'', ''lod''], tsv_line [''0'', ''rs1'', ''10'', ''2.5''],
       tsv_line [''X'', ''rs2'', ''20'', ''4.0'']]
      False False default_options =
      Inr [\<lparr>chr = 0, pos = 10, name = ''rs1'', conf = 5 / 2\<rparr>,
           \<lparr>chr = 23, pos = 20, name = ''rs2'', conf = 4\<rparr>]"
    by (subst read_input_file_eval [OF p])
       (simp_all add: fits_int64_def transform_conf_def sort_records_def sort_order_def)
  have m: "\<lparr>chr = 23, pos = 20, name = ''rs2'', conf = 4\<rparr> \<in>
             set [\<lparr>chr = 0, pos = 10, name = ''rs1'', conf = 5 / 2\<rparr>,
                  \<lparr>chr = 23, pos = 20, name = ''rs2'', conf = 4\<rparr>]"
    by simp
  show ?thesis
    using r read_chromosome_codes [OF r m] by (rule conjI)
qed


section \<open>A file that leaves no row\<close>

text \<open>
  Claim C9.  The documentation of \<^verbatim>\<open>read_input_file\<close> promises \<^verbatim>\<open>ProgramError\<close> for every
  problem met while reading.  When no row is left (every row was skipped, or the file holds
  the header only) the width of the name column is \<^verbatim>\<open>max\<close> of an empty list: the read
  ends with the builtin \<^verbatim>\<open>ValueError\<close>, not with \<^verbatim>\<open>ProgramError\<close>.  A row with too few
  fields ends it with \<^verbatim>\<open>IndexError\<close> in the same way.  No dataset is returned in either
  case.
\<close>

theorem empty_dataset_ValueError:
  "read_input_file float_decimal ''f.txt''
      [tsv_line [''chr'', ''name'', ''cm'', ''lod''], tsv_line [''1'', ''rs1'', ''10'', ''NA'']]
      False False default_options = Inl ValueError \<and>
   read_input_file float_decimal ''f.txt''
      [tsv_line [''chr'', ''name'', ''cm'', ''lod'']] False False default_options =
      Inl ValueError \<and>
   read_input_file float_decimal ''f.txt''
      [tsv_line [''chr'', ''name'', ''cm'', ''lod''], tsv_line [''1'', ''rs1'']]
      False False default_options = Inl IndexError"
proof -
  have p: "parse_file float_decimal ''f.txt''
      [tsv_line [''chr'', ''name'', ''cm'', ''lod''], tsv_line [''1'', ''rs1'', ''10'', ''NA'']]
      False False default_options = Inr []"
    "parse_file float_decimal ''f.txt''
      [tsv_line [''chr'', ''name'', ''cm'', ''lod'']] False False default_options = Inr []"
    "parse_file float_decimal ''f.txt''
      [tsv_line [''chr'', ''name'', ''cm'', ''lod''], tsv_line [''1'', ''rs1'']]
      False False default_options = Inl IndexError"
    by code_simp+
  show ?thesis
    by (simp add: read_input_file_empty p) (simp add: read_input_file_def p)
qed

section \<open>The order of a dataset\<close>

lemma sort_order_prefix:
  "sort_order a \<le> sort_order b \<Longrightarrow> (chr a, pos a) \<le> (chr b, pos b)"
  by (auto simp: sort_order_def less_eq_prod_def)

lemma sorted_sort_records: "sorted (map sort_order (sort_records data))"
  by (simp add: sort_records_def)

lemma sorted_prefix:
  assumes "sorted (map sort_order xs)"
  shows "sorted (map (\<lambda>m. (chr m, pos m)) xs)"
proof -
  have "sorted_wrt (\<lambda>a b. sort_order a \<le> sort_order b) xs"
    using assms by (simp add: sorted_map)
  then have "sorted_wrt (\<lambda>a b. (chr a, pos a) \<le> (chr b, pos b)) xs"
    by (rule sorted_wrt_mono_rel [rotated]) (rule sort_order_prefix)
  then show ?thesis by (simp add: sorted_map)
qed

lemma sort_records_sorted_id: "sorted (map sort_order data) \<Longrightarrow> sort_records data = data"
  by (simp add: sort_records_def sort_key_id_if_sorted)

text \<open>
  Claim C7 as it is worded: the sort is stable, two records with one chromosome and one
  position keep the order of the file.  The array is sorted with
  \<^verbatim>\<open>order=["chr", "pos"]\<close>, and numpy breaks a tie on these two fields by the fields left,
  \<^verbatim>\<open>name\<close> and then \<^verbatim>\<open>conf\<close>: of two such records the one named \<^verbatim>\<open>rs1\<close> comes out before
  the one named \<^verbatim>\<open>rs2\<close>, though the file has them the other way round, and a list that is
  ascending in chromosome and position is changed by the sort.
\<close>

theorem tie_reordered_counterexample:
  "(chr \<lparr>chr = 1, pos = 10, name = ''rs2'', conf = 1\<rparr>,
    pos \<lparr>chr = 1, pos = 10, name = ''rs2'', conf = 1\<rparr>) =
   (chr \<lparr>chr = 1, pos = 10, name = ''rs1'', conf = 2\<rparr>,
    pos \<lparr>chr = 1, pos = 10, name = ''rs1'', conf = 2\<rparr>) \<and>
   sort_records [\<lparr>chr = 1, pos = 10, name = ''rs2'', conf = 1\<rparr>,
                 \<lparr>chr = 1, pos = 10, name = ''rs1'', conf = 2\<rparr>] =
     [\<lparr>chr = 1, pos = 10, name = ''rs1'', conf = 2\<rparr>,
      \<lparr>chr = 1, pos = 10, name = ''rs2'', conf = 1\<rparr>] \<and>
   read_input_file float_decimal ''f.txt''
      [tsv_line [''chr'', ''name'', ''cm'', ''lod''], tsv_line [''1'', ''rs2'', ''10'', ''1''],
       tsv_line [''1'', ''rs1'', ''10'', ''2'']]
      False False default_options =
     Inr [\<lparr>chr = 1, pos = 10, name = ''rs1'', conf = 2\<rparr>,
          \<lparr>chr = 1, pos = 10, name = ''rs2'', conf = 1\<rparr>]"
proof -
  have s: "sort_records [\<lparr>chr = 1, pos = 10, name = ''rs2'', conf = 1\<rparr>,
                 \<lparr>chr = 1, pos = 10, name = ''rs1'', conf = 2\<rparr>] =
     [\<lparr>chr = 1, pos = 10, name = ''rs1'', conf = 2\<rparr>,
      \<lparr>chr = 1, pos = 10, name = ''rs2'', conf = 1\<rparr>]"
    by (simp add: sort_records_def sort_order_def)
  have p: "parse_file float_decimal ''f.txt''
      [tsv_line [''chr'', ''name'', ''cm'', ''lod''], tsv_line [''1'', ''rs2'', ''10'', ''1''],
       tsv_line [''1'', ''rs1'', ''10'', ''2'']]
      False False default_options =
     Inr [\<lparr>chr = 1, pos = 10, name = ''rs2'', conf = 1\<rparr>,
          \<lparr>chr = 1, pos = 10, name = ''rs1'', conf = 2\<rparr>]"
    by code_simp
  have r: "read_input_file float_decimal ''f.txt''
      [tsv_line [''chr'', ''name'', ''cm'', ''lod''], tsv_line [''1'', ''rs2'', ''10'', ''1''],
       tsv_line [''1'', ''rs1'', ''10'', ''2'']]
      False False default_options =
     Inr [\<lparr>chr = 1, pos = 10, name = ''rs1'', conf = 2\<rparr>,
          \<lparr>chr = 1, pos = 10, name = ''rs2'', conf = 1\<rparr>]"
    by (subst read_input_file_eval [OF p]) (simp_all add: fits_int64_def transform_conf_def s)
  show ?thesis using s r by simp
qed

text \<open>
  Claim C7, amended.  The sort returns the same records (each as often as before),
  ascending in (chromosome, position); records that agree on both are ascending in
  (name, confidence), whatever their order was.  A list that is ascending in all four
  fields is returned as it is, so sorting a second time changes nothing.
\<close>

theorem sort_records_order:
  "sorted (map (\<lambda>m. (chr m, pos m)) (sort_records data)) \<and>
   mset (sort_records data) = mset data \<and>
   sorted (map sort_order (sort_records data)) \<and>
   (\<forall>i j. i < j \<and> j < length data \<and>
      chr (sort_records data ! i) = chr (sort_records data ! j) \<and>
      pos (sort_records data ! i) = pos (sort_records data ! j) \<longrightarrow>
      (name (sort_records data ! i), conf (sort_records data ! i)) \<le>
      (name (sort_records data ! j), conf (sort_records data ! j))) \<and>
   (sorted (map sort_order data) \<longrightarrow> sort_records data = data) \<and>
   sort_records (sort_records data) = sort_records data"
proof -
  let ?s = "sort_records data"
  have a: "sorted (map sort_order ?s)" by (rule sorted_sort_records)
  have b: "sorted (map (\<lambda>m. (chr m, pos m)) ?s)" using a by (rule sorted_prefix)
  have c: "mset ?s = mset data" by simp
  have d: "sort_records ?s = ?s" using a by (rule sort_records_sorted_id)
  have e: "sorted (map sort_order data) \<longrightarrow> sort_records data = data"
    by (simp add: sort_records_sorted_id)
  have f: "\<forall>i j. i < j \<and> j < length data \<and> chr (?s ! i) = chr (?s ! j) \<and>
      pos (?s ! i) = pos (?s ! j) \<longrightarrow>
      (name (?s ! i), conf (?s ! i)) \<le> (name (?s ! j), conf (?s ! j))"
  proof (intro allI impI)
    fix i j
    assume h: "i < j \<and> j < length data \<and> chr (?s ! i) = chr (?s ! j) \<and>
      pos (?s ! i) = pos (?s ! j)"
    then have "i < length ?s" "j < length ?s" by simp_all
    with a h have "sort_order (?s ! i) \<le> sort_order (?s ! j)"
      by (simp add: sorted_iff_nth_mono)
    with h show "(name (?s ! i), conf (?s ! i)) \<le> (name (?s ! j), conf (?s ! j))"
      by (auto simp: sort_order_def less_eq_prod_def)
  qed
  show ?thesis using a b c d e f by blast
qed

theorem sort_records_order_witness:
  "sorted (map sort_order [\<lparr>chr = 1, pos = 10, name = ''rs1'', conf = 2\<rparr>,
                           \<lparr>chr = 1, pos = 10, name = ''rs2'', conf = 1\<rparr>]) \<and>
   sort_records [\<lparr>chr = 1, pos = 10, name = ''rs1'', conf = 2\<rparr>,
                 \<lparr>chr = 1, pos = 10, name = ''rs2'', conf = 1\<rparr>] =
     [\<lparr>chr = 1, pos = 10, name = ''rs1'', conf = 2\<rparr>,
      \<lparr>chr = 1, pos = 10, name = ''rs2'', conf = 1\<rparr>]"
proof -
  have h: "sorted (map sort_order [\<lparr>chr = 1, pos = 10, name = ''rs1'', conf = 2\<rparr>,
                           \<lparr>chr = 1, pos = 10, name = ''rs2'', conf = 1\<rparr>])"
    by (simp add: sort_order_def)
  show ?thesis
    using h sort_records_order [of "[\<lparr>chr = 1, pos = 10, name = ''rs1'', conf = 2\<rparr>,
                           \<lparr>chr = 1, pos = 10, name = ''rs2'', conf = 1\<rparr>]"]
    by blast
qed

section \<open>Facts about the axis layout\<close>

lemma fold_max_Max: "fold max ys x = Max (set (x # ys))"
  by (rule Max.set_eq_fold [symmetric])

lemma np_max_Max: "xs \<noteq> [] \<Longrightarrow> np_max xs = Inr (Max (set xs))"
  by (cases xs) (simp_all add: np_max_def fold_max_Max del: set_simps)

lemma np_max_Inr: "np_max xs = Inr mx \<Longrightarrow> xs \<noteq> [] \<and> mx = Max (set xs)"
  by (cases xs) (auto simp add: np_max_def fold_max_Max simp del: set_simps)

lemma np_max_Inl: "np_max xs = Inl e \<Longrightarrow> e = ValueError"
  by (cases xs) (simp_all add: np_max_def)

lemma chr_positions_nonempty: "c \<in> chr ` set data \<Longrightarrow> chr_positions data c \<noteq> []"
  by (auto simp: chr_positions_def filter_empty_conv)

lemma set_unique_chr [simp]: "set (unique_chr data) = chr ` set data"
  by (simp add: unique_chr_def)

lemma sorted_unique_chr: "sorted (unique_chr data)"
  by (simp add: unique_chr_def)

lemma distinct_unique_chr: "distinct (unique_chr data)"
  by (simp add: unique_chr_def)

lemma unique_chr_eq_iff: "unique_chr a = unique_chr b \<longleftrightarrow> chr ` set a = chr ` set b"
proof
  assume "unique_chr a = unique_chr b"
  then have "set (unique_chr a) = set (unique_chr b)" by simp
  then show "chr ` set a = chr ` set b" by simp
next
  assume h: "chr ` set a = chr ` set b"
  have "unique_chr d = sorted_list_of_set (chr ` set d)" for d
    by (simp add: unique_chr_def sorted_list_of_set_sort_remdups [symmetric])
  with h show "unique_chr a = unique_chr b" by simp
qed

lemma chr_maxPos_given:
  assumes "chr_maxPos twopoint multipoint c = Inr mx"
  shows "mx = Max (set (given_positions twopoint multipoint c))"
  using assms
  by (auto simp: chr_maxPos_def given_positions_def Max_Un dest!: np_max_Inr
      split: option.splits sum.splits)

lemma chr_maxPos_ok:
  assumes "twopoint \<noteq> None \<or> multipoint \<noteq> None"
    and "\<forall>tp. twopoint = Some tp \<longrightarrow> c \<in> chr ` set tp"
    and "\<forall>mp. multipoint = Some mp \<longrightarrow> c \<in> chr ` set mp"
  shows "\<exists>mx. chr_maxPos twopoint multipoint c = Inr mx"
  using assms
  by (auto simp: chr_maxPos_def np_max_Max chr_positions_nonempty split: option.splits)

lemma conf_max_ok:
  assumes "\<forall>tp. twopoint = Some tp \<longrightarrow> tp \<noteq> []" "\<forall>mp. multipoint = Some mp \<longrightarrow> mp \<noteq> []"
  shows "\<exists>xs. conf_max twopoint multipoint = Inr xs"
  using assms
  by (auto simp: conf_max_def np_max_Max split: option.splits)

lemma conf_max_Inl: "conf_max twopoint multipoint = Inl e \<Longrightarrow> e = ValueError"
  by (cases twopoint; cases multipoint)
     (auto simp: conf_max_def map_sum_def dest: np_max_Inl split: sum.splits)

lemma messages_differ: "mismatch_msg \<noteq> no_display_msg"
  by (simp add: mismatch_msg_def no_display_msg_def)

text \<open>Rounding to binary64.\<close>

lemma round_half_even_of_int [simp]: "round_half_even (of_int n) = n"
  by (simp add: round_half_even_def)

lemma round_half_even_near:
  assumes "\<bar>x - of_int n\<bar> < 1 / 2"
  shows "round_half_even x = n"
proof (cases "of_int n \<le> x")
  case True
  with assms have "\<lfloor>x\<rfloor> = n" by (simp add: floor_eq_iff)
  with assms True show ?thesis by (simp add: round_half_even_def)
next
  case False
  with assms have f: "\<lfloor>x\<rfloor> = n - 1" by (simp add: floor_eq_iff)
  from False assms have "1 / 2 < x - of_int (n - 1)" by simp
  with f show ?thesis by (simp add: round_half_even_def)
qed

lemma floor_log2_eq:
  assumes "2 powi e \<le> \<bar>x\<bar>" "\<bar>x\<bar> < 2 powi (e + 1)"
  shows "\<lfloor>log 2 \<bar>x\<bar>\<rfloor> = e"
proof -
  have pos: "0 < \<bar>x\<bar>" using assms(1) by (smt (verit) zero_less_power_int)
  have a: "2 powi e = 2 powr (of_int e :: real)" for e :: int
    by (simp add: powr_real_of_int')
  have "of_int e \<le> log 2 \<bar>x\<bar>"
    using assms(1) pos by (simp add: a le_log_iff)
  moreover have "log 2 \<bar>x\<bar> < of_int (e + 1)"
    using assms(2) pos by (simp add: a log_less_iff del: of_int_add)
  ultimately show ?thesis by (simp add: floor_eq_iff)
qed

lemma f64_ulp_eq:
  assumes "2 powi e \<le> \<bar>x\<bar>" "\<bar>x\<bar> < 2 powi (e + 1)" "- 1022 \<le> e"
  shows "f64_ulp x = 2 powi (e - 52)"
  using assms by (simp add: f64_ulp_def floor_log2_eq)

text \<open>A number with at most 53 significant bits and an exponent in the range is not
  changed.\<close>

lemma round_f64_representable:
  assumes x: "x = of_int m * 2 powi e" and m: "\<bar>m\<bar> < 2 ^ 53" and e: "- 1074 \<le> e"
  shows "round_f64 x = x"
proof (cases "m = 0")
  case True
  have "round_half_even 0 = 0" using round_half_even_of_int [of 0] by simp
  with True show ?thesis by (simp add: x round_f64_def)
next
  case False
  define E where "E = max (- 1022) \<lfloor>log 2 \<bar>x\<bar>\<rfloor>"
  have pos: "0 < \<bar>x\<bar>" using False by (simp add: x)
  have "\<bar>x\<bar> = of_int \<bar>m\<bar> * 2 powi e" by (simp add: x abs_mult)
  also have "\<dots> < 2 ^ 53 * 2 powi e"
  proof -
    have "(of_int \<bar>m\<bar> :: real) < of_int (2 ^ 53)" using m by (simp only: of_int_less_iff)
    then show ?thesis by simp
  qed
  also have "\<dots> = 2 powi (e + 53)" by (simp add: power_int_add)
  finally have "\<bar>x\<bar> < 2 powi (e + 53)" .
  moreover have "2 powi (e + 53) = (2 :: real) powr of_int (e + 53)"
    by (simp add: powr_real_of_int' del: of_int_add)
  ultimately have "\<bar>x\<bar> < 2 powr (of_int (e + 53))" by simp
  then have "log 2 \<bar>x\<bar> < of_int (e + 53)" using pos by (simp add: log_less_iff del: of_int_add)
  then have "\<lfloor>log 2 \<bar>x\<bar>\<rfloor> < e + 53" by (simp add: floor_less_iff del: of_int_add)
  then have E: "E \<le> e + 52" using e by (simp add: E_def)
  define d where "d = nat (e + 52 - E)"
  have d: "e = (E - 52) + int d" using E by (simp add: d_def)
  define k where "k = m * 2 ^ d"
  define v where "v = (2 :: real) powi (E - 52)"
  have v: "v \<noteq> 0" by (simp add: v_def)
  have u: "f64_ulp x = v" by (simp add: f64_ulp_def E_def v_def)
  have "x = of_int m * (2 powi int d * 2 powi (E - 52))"
    by (subst x, subst d) (simp add: power_int_add)
  then have xk: "x = of_int k * v" by (simp add: k_def v_def)
  have "x / v = of_int k" by (subst xk) (simp add: v)
  then have "round_f64 x = of_int k * v" by (simp add: round_f64_def u)
  then show ?thesis using xk by simp
qed

lemma is_f64_representable:
  assumes "x = of_int m * 2 powi e" "\<bar>m\<bar> < 2 ^ 53" "- 1074 \<le> e" "\<bar>x\<bar> < 2 ^ 1024"
  shows "is_f64 x"
  using assms round_f64_representable [of x m e] by (simp add: is_f64_def f64_def)

lemma is_f64_of_int: "\<bar>n\<bar> < 2 ^ 53 \<Longrightarrow> is_f64 (of_int n)"
proof -
  assume n: "\<bar>n\<bar> < 2 ^ 53"
  then have "\<bar>(of_int n :: real)\<bar> < of_int (2 ^ 53)"
    by (simp only: of_int_abs [symmetric] of_int_less_iff)
  then have "\<bar>(of_int n :: real)\<bar> < 2 ^ 1024" by simp
  with n show ?thesis by (intro is_f64_representable [of _ n 0]) simp_all
qed

lemma is_f64_half: "\<bar>n\<bar> < 2 ^ 53 \<Longrightarrow> is_f64 (of_int n / 2)"
proof -
  assume n: "\<bar>n\<bar> < 2 ^ 53"
  then have "\<bar>(of_int n :: real)\<bar> < of_int (2 ^ 53)"
    by (simp only: of_int_abs [symmetric] of_int_less_iff)
  then have "\<bar>(of_int n / 2 :: real)\<bar> < 2 ^ 1024" by simp
  with n show ?thesis
    by (intro is_f64_representable [of _ n "- 1"]) (simp_all add: power_int_minus)
qed

lemma f64_exact: "is_f64 x \<Longrightarrow> f64 x = Some x"
  by (simp add: is_f64_def)

text \<open>The rounding of a number whose binade is known.\<close>

lemma f64_round_eval:
  assumes "2 powi e \<le> \<bar>x\<bar>" "\<bar>x\<bar> < 2 powi (e + 1)" "- 1022 \<le> e"
    and "\<bar>x / 2 powi (e - 52) - of_int n\<bar> < 1 / 2"
    and "\<bar>of_int n * 2 powi (e - 52)\<bar> < (2 :: real) ^ 1024"
  shows "f64 x = Some (of_int n * 2 powi (e - 52))"
proof -
  have u: "f64_ulp x = 2 powi (e - 52)" using assms(1-3) by (rule f64_ulp_eq)
  have "round_half_even (x / 2 powi (e - 52)) = n" using assms(4) by (rule round_half_even_near)
  then have "round_f64 x = of_int n * 2 powi (e - 52)" by (simp add: round_f64_def u)
  with assms(5) show ?thesis by (simp add: f64_def)
qed

text \<open>A sum within the 64-bit range is not changed.\<close>

lemma wrap_int64_fits: "fits_int64 x \<Longrightarrow> wrap_int64 x = x"
proof -
  assume "fits_int64 x"
  then have "0 \<le> (x + 2 ^ 63) / 2 ^ 64" "(x + 2 ^ 63) / 2 ^ 64 < 1"
    by (simp_all add: fits_int64_def)
  then have "\<lfloor>(x + 2 ^ 63) / 2 ^ 64\<rfloor> = 0" by (simp add: floor_eq_iff)
  then show ?thesis by (simp add: wrap_int64_def)
qed

lemma wrap_int64_once:
  assumes "2 ^ 63 \<le> x" "x < 3 * 2 ^ 63"
  shows "wrap_int64 x = x - 2 ^ 64"
proof -
  from assms have "1 \<le> (x + 2 ^ 63) / 2 ^ 64" "(x + 2 ^ 63) / 2 ^ 64 < 2"
    by simp_all
  then have "\<lfloor>(x + 2 ^ 63) / 2 ^ 64\<rfloor> = 1" by (simp add: floor_eq_iff)
  then show ?thesis by (simp add: wrap_int64_def)
qed

text \<open>The loop.\<close>

lemma plot_chromosomes_ok:
  assumes "\<forall>c\<in>set cs. \<exists>mx. chr_maxPos twopoint multipoint c = Inr mx"
  shows "\<exists>ps. plot_chromosomes phys spacing twopoint multipoint i start cs = Inr ps"
  using assms
proof (induction cs arbitrary: i start)
  case Nil
  then show ?case by simp
next
  case (Cons c cs)
  from Cons.prems obtain mx where mx: "chr_maxPos twopoint multipoint c = Inr mx" by auto
  from Cons.IH [of "Suc i" "pos_add phys (pos_add phys (Some mx) start) (Some spacing)"]
    Cons.prems
  obtain ps where "plot_chromosomes phys spacing twopoint multipoint (Suc i)
                     (pos_add phys (pos_add phys (Some mx) start) (Some spacing)) cs = Inr ps"
    by auto
  with mx show ?case by (simp add: Let_def)
qed

lemma plot_chromosomes_Cons:
  assumes "plot_chromosomes phys spacing twopoint multipoint i start (c # cs) = Inr ps"
  shows "\<exists>mx rest. chr_maxPos twopoint multipoint c = Inr mx \<and>
           plot_chromosomes phys spacing twopoint multipoint (Suc i)
             (pos_add phys (pos_add phys (Some mx) start) (Some spacing)) cs = Inr rest \<and>
           ps = \<lparr>chromosome = c, startingPos = start, maxPos = mx,
                 xmin = f64_sub (as_float phys start) (f64 (spacing / 2)),
                 xmax = f64_add (as_float phys (pos_add phys (Some mx) start)) (f64 (spacing / 2)),
                 tick = f64_half (f64_add (f64_sub (as_float phys start) (f64 (spacing / 2)))
                   (f64_add (as_float phys (pos_add phys (Some mx) start)) (f64 (spacing / 2)))),
                 shaded = (i mod 2 = 1)\<rparr> # rest"
  using assms by (auto simp: Let_def split: sum.splits)

lemma plot_chromosomes_chromosome:
  assumes "plot_chromosomes phys spacing twopoint multipoint i start cs = Inr ps"
  shows "map chromosome ps = cs"
  using assms
proof (induction cs arbitrary: i start ps)
  case Nil
  then show ?case by simp
next
  case (Cons c cs)
  from plot_chromosomes_Cons [OF Cons.prems] obtain mx rest where
    r: "plot_chromosomes phys spacing twopoint multipoint (Suc i)
          (pos_add phys (pos_add phys (Some mx) start) (Some spacing)) cs = Inr rest"
    and ps: "chromosome (hd ps) = c" "tl ps = rest" "ps \<noteq> []"
    by auto
  from Cons.IH [OF r] ps show ?case by (cases ps) simp_all
qed

text \<open>What one turn of the loop computes, whatever the sums do.\<close>

lemma plot_chromosomes_turn:
  assumes "plot_chromosomes phys spacing twopoint multipoint i start cs = Inr ps" "k < length ps"
  shows "(k = 0 \<longrightarrow> startingPos (ps ! k) = start) \<and>
         (Suc k < length ps \<longrightarrow>
            startingPos (ps ! Suc k) =
              pos_add phys (pos_add phys (Some (maxPos (ps ! k))) (startingPos (ps ! k)))
                (Some spacing)) \<and>
         xmin (ps ! k) = f64_sub (as_float phys (startingPos (ps ! k))) (f64 (spacing / 2)) \<and>
         xmax (ps ! k) =
           f64_add (as_float phys (pos_add phys (Some (maxPos (ps ! k))) (startingPos (ps ! k))))
             (f64 (spacing / 2)) \<and>
         tick (ps ! k) = f64_half (f64_add (xmin (ps ! k)) (xmax (ps ! k))) \<and>
         chr_maxPos twopoint multipoint (chromosome (ps ! k)) = Inr (maxPos (ps ! k)) \<and>
         shaded (ps ! k) = ((i + k) mod 2 = 1)"
  using assms
proof (induction cs arbitrary: i start ps k)
  case Nil
  then show ?case by simp
next
  case (Cons c cs)
  from plot_chromosomes_Cons [OF Cons.prems(1)] obtain mx rest where
    mx: "chr_maxPos twopoint multipoint c = Inr mx"
    and r: "plot_chromosomes phys spacing twopoint multipoint (Suc i)
          (pos_add phys (pos_add phys (Some mx) start) (Some spacing)) cs = Inr rest"
    and ps: "ps = \<lparr>chromosome = c, startingPos = start, maxPos = mx,
                 xmin = f64_sub (as_float phys start) (f64 (spacing / 2)),
                 xmax = f64_add (as_float phys (pos_add phys (Some mx) start)) (f64 (spacing / 2)),
                 tick = f64_half (f64_add (f64_sub (as_float phys start) (f64 (spacing / 2)))
                   (f64_add (as_float phys (pos_add phys (Some mx) start)) (f64 (spacing / 2)))),
                 shaded = (i mod 2 = 1)\<rparr> # rest"
    by blast
  show ?case
  proof (cases k)
    case 0
    have "Suc 0 < length ps \<longrightarrow>
            startingPos (ps ! Suc 0) =
              pos_add phys (pos_add phys (Some mx) start) (Some spacing)"
    proof
      assume "Suc 0 < length ps"
      then have "0 < length rest" by (simp add: ps)
      from Cons.IH [OF r this] show
        "startingPos (ps ! Suc 0) = pos_add phys (pos_add phys (Some mx) start) (Some spacing)"
        by (simp add: ps)
    qed
    then show ?thesis using mx by (simp add: ps 0)
  next
    case (Suc k')
    then have k': "k' < length rest" using Cons.prems(2) by (simp add: ps)
    from Cons.IH [OF r k'] show ?thesis
      by (simp add: ps Suc)
  qed
qed

text \<open>The cursor when no sum wraps around or is rounded.\<close>

lemma spec_cursor_0 [simp]: "spec_cursor spacing ps 0 = 0"
  by (simp add: spec_cursor_def)

lemma spec_cursor_Suc:
  "k < length ps \<Longrightarrow> spec_cursor spacing ps (Suc k) = spec_cursor spacing ps k + maxPos (ps ! k) + spacing"
  by (simp add: spec_cursor_def take_Suc_conv_app_nth)

lemma exact_turn_values:
  assumes "exact_turn phys spacing c m"
  shows "f64_sub (as_float phys (Some c)) (f64 (spacing / 2)) = Some (c - spacing / 2)"
    and "pos_add phys (Some m) (Some c) = Some (c + m)"
    and "f64_add (as_float phys (Some (c + m))) (f64 (spacing / 2)) = Some (c + m + spacing / 2)"
    and "pos_add phys (Some (c + m)) (Some spacing) = Some (c + m + spacing)"
    and "f64_half (f64_add (Some (c - spacing / 2)) (Some (c + m + spacing / 2))) =
           Some (((c - spacing / 2) + (c + m + spacing / 2)) / 2)"
proof -
  from assms have h: "f64 (spacing / 2) = Some (spacing / 2)" and c: "f64 c = Some c"
    and lo: "f64 (c - spacing / 2) = Some (c - spacing / 2)"
    and s: "f64 (m + c) = Some (m + c)"
    and hi: "f64 (m + c + spacing / 2) = Some (m + c + spacing / 2)"
    and t1: "f64 ((c - spacing / 2) + (m + c + spacing / 2)) =
               Some ((c - spacing / 2) + (m + c + spacing / 2))"
    and t2: "f64 (((c - spacing / 2) + (m + c + spacing / 2)) / 2) =
               Some (((c - spacing / 2) + (m + c + spacing / 2)) / 2)"
    and w: "phys \<longrightarrow> wrap_int64 (m + c) = m + c \<and> wrap_int64 (m + c + spacing) = m + c + spacing"
    and n: "\<not> phys \<longrightarrow> f64 (m + c + spacing) = Some (m + c + spacing)"
    by (simp_all add: exact_turn_def is_f64_def wrap_int64_fits split: if_splits)
  have e: "c + m = m + c" by simp
  show "f64_sub (as_float phys (Some c)) (f64 (spacing / 2)) = Some (c - spacing / 2)"
    by (simp add: as_float_def f64_sub_def h c lo)
  show "pos_add phys (Some m) (Some c) = Some (c + m)"
    using w by (simp add: pos_add_def f64_add_def s e)
  show "f64_add (as_float phys (Some (c + m))) (f64 (spacing / 2)) = Some (c + m + spacing / 2)"
    unfolding e by (simp add: as_float_def f64_add_def h s hi)
  show "pos_add phys (Some (c + m)) (Some spacing) = Some (c + m + spacing)"
    unfolding e using w n by (simp add: pos_add_def f64_add_def)
  show "f64_half (f64_add (Some (c - spacing / 2)) (Some (c + m + spacing / 2))) =
           Some (((c - spacing / 2) + (c + m + spacing / 2)) / 2)"
    unfolding e by (simp only: f64_add_def f64_half_def option.case t1 t2)
qed

lemma plot_chromosomes_offset:
  assumes "plot_chromosomes phys spacing twopoint multipoint i (Some 0) cs = Inr ps"
    and "\<forall>k<length ps. exact_turn phys spacing (spec_cursor spacing ps k) (maxPos (ps ! k))"
    and "k < length ps"
  shows "startingPos (ps ! k) = Some (spec_cursor spacing ps k)"
  using assms(3)
proof (induction k)
  case 0
  with plot_chromosomes_turn [OF assms(1), of 0] show ?case by simp
next
  case (Suc k)
  then have k: "k < length ps" and s: "startingPos (ps ! k) = Some (spec_cursor spacing ps k)"
    by simp_all
  from assms(2) k have e: "exact_turn phys spacing (spec_cursor spacing ps k) (maxPos (ps ! k))"
    by simp
  from plot_chromosomes_turn [OF assms(1) k] Suc.prems
  have "startingPos (ps ! Suc k) =
          pos_add phys (pos_add phys (Some (maxPos (ps ! k))) (startingPos (ps ! k))) (Some spacing)"
    by simp
  then show ?case
    by (simp only: s exact_turn_values(2,4) [OF e] spec_cursor_Suc [OF k])
qed

lemma plot_chromosomes_exact:
  assumes "plot_chromosomes phys spacing twopoint multipoint i (Some 0) cs = Inr ps"
    and "\<forall>k<length ps. exact_turn phys spacing (spec_cursor spacing ps k) (maxPos (ps ! k))"
    and "k < length ps"
  shows "startingPos (ps ! k) = Some (spec_cursor spacing ps k)"
    and "xmin (ps ! k) = Some (spec_cursor spacing ps k - spacing / 2)"
    and "xmax (ps ! k) = Some (spec_cursor spacing ps k + maxPos (ps ! k) + spacing / 2)"
    and "tick (ps ! k) = Some (((spec_cursor spacing ps k - spacing / 2) +
           (spec_cursor spacing ps k + maxPos (ps ! k) + spacing / 2)) / 2)"
proof -
  note t = plot_chromosomes_turn [OF assms(1,3)]
  from assms(2,3) have e: "exact_turn phys spacing (spec_cursor spacing ps k) (maxPos (ps ! k))"
    by simp
  show s: "startingPos (ps ! k) = Some (spec_cursor spacing ps k)"
    using assms by (rule plot_chromosomes_offset)
  show lo: "xmin (ps ! k) = Some (spec_cursor spacing ps k - spacing / 2)"
    using t by (simp only: s exact_turn_values(1) [OF e])
  show hi: "xmax (ps ! k) = Some (spec_cursor spacing ps k + maxPos (ps ! k) + spacing / 2)"
    using t by (simp only: s exact_turn_values(2,3) [OF e])
  show "tick (ps ! k) = Some (((spec_cursor spacing ps k - spacing / 2) +
           (spec_cursor spacing ps k + maxPos (ps ! k) + spacing / 2)) / 2)"
    using t by (simp only: lo hi exact_turn_values(5) [OF e])
qed


lemma create_manhattan_plot_Inr:
  assumes "create_manhattan_plot twopoint multipoint phys display = Inr ps"
  shows "\<exists>avail. plot_chromosomes phys (chr_spacing phys) twopoint multipoint 0 (Some 0) avail = Inr ps \<and>
           display \<and> (twopoint \<noteq> None \<or> multipoint \<noteq> None) \<and>
           (\<forall>tp. twopoint = Some tp \<longrightarrow> avail = unique_chr tp) \<and>
           (\<forall>mp. multipoint = Some mp \<longrightarrow> avail = unique_chr mp)"
  using assms
  by (auto simp: create_manhattan_plot_def available_lists_def
      split: option.splits sum.splits if_splits)

lemma create_manhattan_plot_loop:
  assumes "create_manhattan_plot twopoint multipoint phys display = Inr ps"
  shows "sorted (map chromosome ps) \<and> distinct (map chromosome ps) \<and>
         plot_chromosomes phys (chr_spacing phys) twopoint multipoint 0 (Some 0)
           (map chromosome ps) = Inr ps"
proof -
  from create_manhattan_plot_Inr [OF assms] obtain avail where
    a: "plot_chromosomes phys (chr_spacing phys) twopoint multipoint 0 (Some 0) avail = Inr ps"
    and b: "twopoint \<noteq> None \<or> multipoint \<noteq> None"
    and c: "\<forall>tp. twopoint = Some tp \<longrightarrow> avail = unique_chr tp"
    and d: "\<forall>mp. multipoint = Some mp \<longrightarrow> avail = unique_chr mp"
    by blast
  from b c d have "sorted avail \<and> distinct avail"
    by (auto simp: sorted_unique_chr distinct_unique_chr)
  moreover have "map chromosome ps = avail" using a by (rule plot_chromosomes_chromosome)
  ultimately show ?thesis using a by simp
qed

text \<open>Physical positions that are whole numbers, with a cursor below \<open>2\<^sup>5\<^sup>2\<close>: nothing wraps
  around or is rounded.\<close>

lemma exact_turn_physical:
  assumes "0 \<le> c" "0 \<le> m" "c + m + 25000000 < 2 ^ 52"
  shows "exact_turn True (chr_spacing True) (of_int c) (of_int m)"
proof -
  have r: "fits_int64 (of_int n)" if "\<bar>n\<bar> < 2 ^ 53" for n :: int
  proof -
    from that have "\<bar>n\<bar> < 9007199254740992" by simp
    then have "- 9223372036854775808 \<le> n \<and> n < 9223372036854775808" by linarith
    then have "- (2 ^ 63) \<le> n \<and> n < 2 ^ 63" by simp
    then have "(of_int (- (2 ^ 63)) :: real) \<le> of_int n \<and> (of_int n :: real) < of_int (2 ^ 63)"
      by (simp only: of_int_le_iff of_int_less_iff)
    then show ?thesis by (simp add: fits_int64_def)
  qed
  from assms have bd: "\<bar>m + c\<bar> < 9007199254740992" "\<bar>m + c + 25000000\<bar> < 9007199254740992"
    "\<bar>12500000 :: int\<bar> < 9007199254740992" "\<bar>c\<bar> < 9007199254740992"
    "\<bar>c - 12500000\<bar> < 9007199254740992" "\<bar>m + c + 12500000\<bar> < 9007199254740992"
    "\<bar>c - 12500000 + (m + c + 12500000)\<bar> < 9007199254740992"
    by simp_all
  have p: "(2 :: int) ^ 53 = 9007199254740992" by simp
  note bd' = bd [folded p]
  have a: "fits_int64 (of_int (m + c))" "fits_int64 (of_int (m + c + 25000000))"
    by (rule r, rule bd')+
  have b: "is_f64 (of_int 12500000)" "is_f64 (of_int c)" "is_f64 (of_int (c - 12500000))"
    "is_f64 (of_int (m + c))" "is_f64 (of_int (m + c + 12500000))"
    "is_f64 (of_int (c - 12500000 + (m + c + 12500000)))"
    "is_f64 (of_int (c - 12500000 + (m + c + 12500000)) / 2)"
    by (rule is_f64_of_int is_f64_half, rule bd')+
  from a b show ?thesis
    by (simp add: exact_turn_def chr_spacing_def)
qed

text \<open>Concrete roundings.\<close>

lemma f64_0: "f64 0 = Some 0"
  using is_f64_of_int [of 0] by (simp add: is_f64_def)

lemma wrapped_roundings:
  shows "f64 (12500000) = Some (12500000)"
    and "f64 (- 12500000) = Some (- 12500000)"
    and "f64 (5000000000000000000) = Some (5000000000000000000)"
    and "f64 (5000000000012500000) = Some (5000000000012499968)"
    and "f64 (4999999999999999968) = Some (5000000000000000000)"
    and "f64 (2500000000000000000) = Some (2500000000000000000)"
    and "f64 (5000000000025000000) = Some (5000000000024999936)"
    and "f64 (5000000000012499936) = Some (5000000000012499968)"
    and "f64 (- 8446744073684551616) = Some (- 8446744073684551680)"
    and "f64 (- 8446744073672051680) = Some (- 8446744073672051712)"
    and "f64 (- 3446744073659551744) = Some (- 3446744073659551744)"
    and "f64 (- 1723372036829775872) = Some (- 1723372036829775872)"
    and "f64 (- 8446744073659551616) = Some (- 8446744073659551744)"
    and "f64 (- 8446744073672051744) = Some (- 8446744073672051712)"
    and "f64 (- 8446744073659551615) = Some (- 8446744073659551744)"
    and "f64 (- 8446744073647051744) = Some (- 8446744073647051776)"
    and "f64 (- 16893488147319103488) = Some (- 16893488147319103488)"
    and "f64 (- 8446744073659551744) = Some (- 8446744073659551744)"
proof -
  show "f64 (12500000) = Some (12500000)"
    using is_f64_of_int [of "12500000"] by (simp add: is_f64_def)
  show "f64 (- 12500000) = Some (- 12500000)"
    using is_f64_of_int [of "- 12500000"] by (simp add: is_f64_def)
  show "f64 (5000000000000000000) = Some (5000000000000000000)"
    using f64_round_eval [of 62 "5000000000000000000" "4882812500000000"] by (simp add: power_int_def)
  show "f64 (5000000000012500000) = Some (5000000000012499968)"
    using f64_round_eval [of 62 "5000000000012500000" "4882812500012207"] by (simp add: power_int_def)
  show "f64 (4999999999999999968) = Some (5000000000000000000)"
    using f64_round_eval [of 62 "4999999999999999968" "4882812500000000"] by (simp add: power_int_def)
  show "f64 (2500000000000000000) = Some (2500000000000000000)"
    using f64_round_eval [of 61 "2500000000000000000" "4882812500000000"] by (simp add: power_int_def)
  show "f64 (5000000000025000000) = Some (5000000000024999936)"
    using f64_round_eval [of 62 "5000000000025000000" "4882812500024414"] by (simp add: power_int_def)
  show "f64 (5000000000012499936) = Some (5000000000012499968)"
    using f64_round_eval [of 62 "5000000000012499936" "4882812500012207"] by (simp add: power_int_def)
  show "f64 (- 8446744073684551616) = Some (- 8446744073684551680)"
    using f64_round_eval [of 62 "- 8446744073684551616" "- 8248773509457570"] by (simp add: power_int_def)
  show "f64 (- 8446744073672051680) = Some (- 8446744073672051712)"
    using f64_round_eval [of 62 "- 8446744073672051680" "- 8248773509445363"] by (simp add: power_int_def)
  show "f64 (- 3446744073659551744) = Some (- 3446744073659551744)"
    using f64_round_eval [of 61 "- 3446744073659551744" "- 6731922018866312"] by (simp add: power_int_def)
  show "f64 (- 1723372036829775872) = Some (- 1723372036829775872)"
    using f64_round_eval [of 60 "- 1723372036829775872" "- 6731922018866312"] by (simp add: power_int_def)
  show "f64 (- 8446744073659551616) = Some (- 8446744073659551744)"
    using f64_round_eval [of 62 "- 8446744073659551616" "- 8248773509433156"] by (simp add: power_int_def)
  show "f64 (- 8446744073672051744) = Some (- 8446744073672051712)"
    using f64_round_eval [of 62 "- 8446744073672051744" "- 8248773509445363"] by (simp add: power_int_def)
  show "f64 (- 8446744073659551615) = Some (- 8446744073659551744)"
    using f64_round_eval [of 62 "- 8446744073659551615" "- 8248773509433156"] by (simp add: power_int_def)
  show "f64 (- 8446744073647051744) = Some (- 8446744073647051776)"
    using f64_round_eval [of 62 "- 8446744073647051744" "- 8248773509420949"] by (simp add: power_int_def)
  show "f64 (- 16893488147319103488) = Some (- 16893488147319103488)"
    using f64_round_eval [of 63 "- 16893488147319103488" "- 8248773509433156"] by (simp add: power_int_def)
  show "f64 (- 8446744073659551744) = Some (- 8446744073659551744)"
    using f64_round_eval [of 62 "- 8446744073659551744" "- 8248773509433156"] by (simp add: power_int_def)
qed

lemma wrapped_sums:
  "wrap_int64 5000000000000000000 = 5000000000000000000"
  "wrap_int64 5000000000025000000 = 5000000000025000000"
  "wrap_int64 10000000000025000000 = - 8446744073684551616"
  "wrap_int64 (- 8446744073659551616) = - 8446744073659551616"
  "wrap_int64 (- 8446744073659551615) = - 8446744073659551615"
proof -
  show "wrap_int64 10000000000025000000 = - 8446744073684551616"
    by (subst wrap_int64_once) simp_all
  show "wrap_int64 5000000000000000000 = 5000000000000000000"
    "wrap_int64 5000000000025000000 = 5000000000025000000"
    "wrap_int64 (- 8446744073659551616) = - 8446744073659551616"
    "wrap_int64 (- 8446744073659551615) = - 8446744073659551615"
    by (simp_all add: wrap_int64_fits fits_int64_def)
qed

text \<open>Three chromosomes with physical positions whose sums leave the 64-bit range.\<close>

lemma wrapped_layout:
  "create_manhattan_plot
     (Some [\<lparr>chr = 1, pos = 5000000000000000000, name = ''rs1'', conf = 1\<rparr>,
            \<lparr>chr = 2, pos = 5000000000000000000, name = ''rs2'', conf = 2\<rparr>,
            \<lparr>chr = 3, pos = 1, name = ''rs3'', conf = 3\<rparr>]) None True True =
   Inr [\<lparr>chromosome = 1, startingPos = Some 0, maxPos = 5000000000000000000,
         xmin = Some (- 12500000), xmax = Some 5000000000012499968,
         tick = Some 2500000000000000000, shaded = False\<rparr>,
        \<lparr>chromosome = 2, startingPos = Some 5000000000025000000, maxPos = 5000000000000000000,
         xmin = Some 5000000000012499968, xmax = Some (- 8446744073672051712),
         tick = Some (- 1723372036829775872), shaded = True\<rparr>,
        \<lparr>chromosome = 3, startingPos = Some (- 8446744073659551616), maxPos = 1,
         xmin = Some (- 8446744073672051712), xmax = Some (- 8446744073647051776),
         tick = Some (- 8446744073659551744), shaded = False\<rparr>]"
  by (simp add: create_manhattan_plot_def available_lists_def unique_chr_def conf_max_def
      np_max_def chr_maxPos_def chr_positions_def chr_spacing_def Let_def pos_add_def
      as_float_def f64_add_def f64_sub_def f64_half_def wrapped_sums wrapped_roundings f64_0)



text \<open>The file of the three chromosomes with physical positions.\<close>

lemma read_row_kept:
  assumes "get_field row hi (col_chr opts) = Inr label" "encode_chr label = Inr c"
    "c \<notin> exclude_chr opts"
    "get_field row hi (position_column phys opts) = Inr ptext"
    "parse_position pf phys ptext = Some p"
    "get_field row hi (confidence_column pv opts) = Inr ctext"
    "upper ctext \<noteq> ''NA''" "upper ctext \<noteq> ''NAN''" "pf ctext = Some cf"
    "get_field row hi (col_name opts) = Inr nm"
  shows "read_row pf f phys pv opts hi row = Inr (Some \<lparr>chr = c, pos = p, name = nm, conf = cf\<rparr>)"
  using assms by (simp add: read_row_def)

lemma big_position:
  "parse_position float_decimal True ''5000000000000000000'' = Some 5000000000000000000"
  by (simp add: parse_position_def py_int_def strip_def is_space_def parse_digits_def
      is_digit_def digits_value_def digit_val_def Let_def)

lemma wrapped_file:
  "read_input_file float_decimal ''f.txt''
      [tsv_line [''chr'', ''name'', ''pos'', ''lod''],
       tsv_line [''1'', ''rs1'', ''5000000000000000000'', ''1''],
       tsv_line [''2'', ''rs2'', ''5000000000000000000'', ''2''],
       tsv_line [''3'', ''rs3'', ''1'', ''3'']]
      True False default_options =
   Inr [\<lparr>chr = 1, pos = 5000000000000000000, name = ''rs1'', conf = 1\<rparr>,
        \<lparr>chr = 2, pos = 5000000000000000000, name = ''rs2'', conf = 2\<rparr>,
        \<lparr>chr = 3, pos = 1, name = ''rs3'', conf = 3\<rparr>]"
proof -
  let ?header = "tsv_line [''chr'', ''name'', ''pos'', ''lod'']"
  let ?hi = "header_index (split_line ?header)"
  let ?l1 = "tsv_line [''1'', ''rs1'', ''5000000000000000000'', ''1'']"
  let ?l2 = "tsv_line [''2'', ''rs2'', ''5000000000000000000'', ''2'']"
  let ?l3 = "tsv_line [''3'', ''rs3'', ''1'', ''3'']"
  have hdr: "check_header ''f.txt'' ?hi (colNames True False default_options) = None"
    by code_simp
  have g1: "get_field (split_line ?l1) ?hi (col_chr default_options) = Inr ''1''"
    "get_field (split_line ?l1) ?hi (position_column True default_options) =
       Inr ''5000000000000000000''"
    "get_field (split_line ?l1) ?hi (confidence_column False default_options) = Inr ''1''"
    "get_field (split_line ?l1) ?hi (col_name default_options) = Inr ''rs1''"
    by code_simp+
  have g2: "get_field (split_line ?l2) ?hi (col_chr default_options) = Inr ''2''"
    "get_field (split_line ?l2) ?hi (position_column True default_options) =
       Inr ''5000000000000000000''"
    "get_field (split_line ?l2) ?hi (confidence_column False default_options) = Inr ''2''"
    "get_field (split_line ?l2) ?hi (col_name default_options) = Inr ''rs2''"
    by code_simp+
  have g3: "get_field (split_line ?l3) ?hi (col_chr default_options) = Inr ''3''"
    "get_field (split_line ?l3) ?hi (position_column True default_options) = Inr ''1''"
    "get_field (split_line ?l3) ?hi (confidence_column False default_options) = Inr ''3''"
    "get_field (split_line ?l3) ?hi (col_name default_options) = Inr ''rs3''"
    by code_simp+
  have enc: "encode_chr ''1'' = Inr 1" "encode_chr ''2'' = Inr 2" "encode_chr ''3'' = Inr 3"
    by code_simp+
  have nex: "c \<notin> exclude_chr default_options" for c
    by (simp add: default_options_def)
  have small: "parse_position float_decimal True ''1'' = Some 1" by code_simp
  have cf: "float_decimal ''1'' = Some 1" "float_decimal ''2'' = Some 2"
    "float_decimal ''3'' = Some 3"
    "upper ''1'' \<noteq> ''NA''" "upper ''1'' \<noteq> ''NAN''" "upper ''2'' \<noteq> ''NA''"
    "upper ''2'' \<noteq> ''NAN''" "upper ''3'' \<noteq> ''NA''" "upper ''3'' \<noteq> ''NAN''"
    by code_simp+
  have r1: "read_row float_decimal ''f.txt'' True False default_options ?hi (split_line ?l1) =
              Inr (Some \<lparr>chr = 1, pos = 5000000000000000000, name = ''rs1'', conf = 1\<rparr>)"
    by (rule read_row_kept [OF g1(1) enc(1) nex g1(2) big_position g1(3) cf(4) cf(5) cf(1) g1(4)])
  have r2: "read_row float_decimal ''f.txt'' True False default_options ?hi (split_line ?l2) =
              Inr (Some \<lparr>chr = 2, pos = 5000000000000000000, name = ''rs2'', conf = 2\<rparr>)"
    by (rule read_row_kept [OF g2(1) enc(2) nex g2(2) big_position g2(3) cf(6) cf(7) cf(2) g2(4)])
  have r3: "read_row float_decimal ''f.txt'' True False default_options ?hi (split_line ?l3) =
              Inr (Some \<lparr>chr = 3, pos = 1, name = ''rs3'', conf = 3\<rparr>)"
    by (rule read_row_kept [OF g3(1) enc(3) nex g3(2) small g3(3) cf(8) cf(9) cf(3) g3(4)])
  have p: "parse_file float_decimal ''f.txt'' [?header, ?l1, ?l2, ?l3] True False default_options =
   Inr [\<lparr>chr = 1, pos = 5000000000000000000, name = ''rs1'', conf = 1\<rparr>,
        \<lparr>chr = 2, pos = 5000000000000000000, name = ''rs2'', conf = 2\<rparr>,
        \<lparr>chr = 3, pos = 1, name = ''rs3'', conf = 3\<rparr>]"
    by (simp add: parse_file_def Let_def hdr r1 r2 r3)
  show ?thesis
    by (subst read_input_file_eval [OF p])
       (simp_all add: fits_int64_def transform_conf_def sort_records_def sort_order_def)
qed



lemma two_positions_roundings:
  shows "f64 20 = Some 20" and "f64 10 = Some 10" and "f64 12500020 = Some 12500020"
    and "f64 12500000 = Some 12500000" and "f64 (- 12500000) = Some (- 12500000)"
    and "f64 (25 / 2) = Some (25 / 2)" and "f64 (- (25 / 2)) = Some (- (25 / 2))"
    and "f64 (65 / 2) = Some (65 / 2)"
  using is_f64_of_int [of 20] is_f64_of_int [of 10] is_f64_of_int [of 12500020]
    is_f64_of_int [of 12500000] is_f64_of_int [of "- 12500000"]
    is_f64_half [of 25] is_f64_half [of "- 25"] is_f64_half [of 65]
  by (simp_all add: is_f64_def)

lemma two_positions_layout:
  "create_manhattan_plot
     (Some [\<lparr>chr = c, pos = 10, name = n1, conf = c1\<rparr>, \<lparr>chr = c, pos = 20, name = n2, conf = c2\<rparr>])
     None phys True =
   Inr [\<lparr>chromosome = c, startingPos = Some 0, maxPos = 20,
         xmin = Some (0 - chr_spacing phys / 2), xmax = Some (0 + 20 + chr_spacing phys / 2),
         tick = Some 10, shaded = False\<rparr>]"
proof -
  have w: "wrap_int64 20 = 20" by (simp add: wrap_int64_fits fits_int64_def)
  show ?thesis
    by (cases phys)
       (simp_all add: create_manhattan_plot_def available_lists_def unique_chr_def conf_max_def
         np_max_def chr_maxPos_def chr_positions_def chr_spacing_def Let_def pos_add_def
         as_float_def f64_add_def f64_sub_def f64_half_def w two_positions_roundings f64_0)
qed




section \<open>The placement of the chromosomes\<close>

text \<open>
  Claim C1 as it is worded holds for every sequence of chromosomes and largest positions.
  With physical positions the cursor and the largest positions are 64-bit integers of
  numpy, and the ends of the boxes are binary64 floats.  For three chromosomes with the
  largest positions 5000000000000000000, 5000000000000000000 and 1, which the reader
  accepts, the first box ends at 5000000000012499968, the float nearest to the offset plus
  the largest position plus half the spacing, and not at that number.  The sum of the second
  offset and the second largest position is outside the 64-bit range and wraps around: the
  third offset is negative, not the second offset plus the largest position plus the
  spacing.
\<close>

theorem wrapped_box_counterexample:
  "read_input_file float_decimal ''f.txt''
      [tsv_line [''chr'', ''name'', ''pos'', ''lod''],
       tsv_line [''1'', ''rs1'', ''5000000000000000000'', ''1''],
       tsv_line [''2'', ''rs2'', ''5000000000000000000'', ''2''],
       tsv_line [''3'', ''rs3'', ''1'', ''3'']]
      True False default_options =
   Inr [\<lparr>chr = 1, pos = 5000000000000000000, name = ''rs1'', conf = 1\<rparr>,
        \<lparr>chr = 2, pos = 5000000000000000000, name = ''rs2'', conf = 2\<rparr>,
        \<lparr>chr = 3, pos = 1, name = ''rs3'', conf = 3\<rparr>] \<and>
   create_manhattan_plot
     (Some [\<lparr>chr = 1, pos = 5000000000000000000, name = ''rs1'', conf = 1\<rparr>,
            \<lparr>chr = 2, pos = 5000000000000000000, name = ''rs2'', conf = 2\<rparr>,
            \<lparr>chr = 3, pos = 1, name = ''rs3'', conf = 3\<rparr>]) None True True =
   Inr [\<lparr>chromosome = 1, startingPos = Some 0, maxPos = 5000000000000000000,
         xmin = Some (- 12500000), xmax = Some 5000000000012499968,
         tick = Some 2500000000000000000, shaded = False\<rparr>,
        \<lparr>chromosome = 2, startingPos = Some 5000000000025000000, maxPos = 5000000000000000000,
         xmin = Some 5000000000012499968, xmax = Some (- 8446744073672051712),
         tick = Some (- 1723372036829775872), shaded = True\<rparr>,
        \<lparr>chromosome = 3, startingPos = Some (- 8446744073659551616), maxPos = 1,
         xmin = Some (- 8446744073672051712), xmax = Some (- 8446744073647051776),
         tick = Some (- 8446744073659551744), shaded = False\<rparr>] \<and>
   (0 :: real) + 5000000000000000000 + chr_spacing True / 2 \<noteq> 5000000000012499968 \<and>
   (5000000000025000000 :: real) + 5000000000000000000 + chr_spacing True \<noteq>
     - 8446744073659551616"
  using wrapped_file wrapped_layout by (simp add: chr_spacing_def)

text \<open>
  Claim C1, amended.  The loop over the chromosomes, run from cursor 0 with any spacing,
  gives one placement for each chromosome of the list, in the order of the list.  The
  largest position of a chromosome is the maximum of its positions in the datasets given.
  The offset of the first chromosome is 0.  The box of a chromosome runs from the float of
  the offset less half the spacing to the float of the offset plus the largest position
  plus half the spacing, the tick is half the sum of the two ends, and the offset of the
  next chromosome is the offset plus the largest position plus the spacing; every sum of
  floats is rounded to binary64, and with physical positions the sums of the offset are
  sums of 64-bit integers, which wrap around.

  When for every chromosome one turn is exact at the cursor of the specification (no sum
  wraps around, none is rounded), the placements are those of the specification: the
  offset is the cursor, the box runs from the cursor less half the spacing to the cursor
  plus the largest position plus half the spacing, the tick is the middle of the box, and
  the next cursor is the cursor plus the largest position plus the spacing.  With physical
  positions a turn is exact when the cursor and the largest position are whole numbers
  that are not negative and their sum plus the spacing is below \<open>2\<^sup>5\<^sup>2\<close>.

  \<^verbatim>\<open>create_manhattan_plot\<close> runs this loop from cursor 0 with the spacing of the position
  unit over the chromosomes in ascending order, each once.  For a two-point dataset of one
  chromosome with the positions 10 and 20 the offset is 0 and the box ends at 20 plus half
  the spacing, with either unit.
\<close>

theorem axis_layout:
  "(plot_chromosomes phys spacing twopoint multipoint 0 (Some 0) cs = Inr ps \<longrightarrow>
      map chromosome ps = cs \<and>
      (\<forall>k<length ps.
         maxPos (ps ! k) = Max (set (given_positions twopoint multipoint (cs ! k))) \<and>
         (k = 0 \<longrightarrow> startingPos (ps ! k) = Some 0) \<and>
         xmin (ps ! k) = f64_sub (as_float phys (startingPos (ps ! k))) (f64 (spacing / 2)) \<and>
         xmax (ps ! k) =
           f64_add (as_float phys (pos_add phys (Some (maxPos (ps ! k))) (startingPos (ps ! k))))
             (f64 (spacing / 2)) \<and>
         tick (ps ! k) = f64_half (f64_add (xmin (ps ! k)) (xmax (ps ! k))) \<and>
         (Suc k < length ps \<longrightarrow>
            startingPos (ps ! Suc k) =
              pos_add phys (pos_add phys (Some (maxPos (ps ! k))) (startingPos (ps ! k)))
                (Some spacing))) \<and>
      ((\<forall>k<length ps. exact_turn phys spacing (spec_cursor spacing ps k) (maxPos (ps ! k))) \<longrightarrow>
         (\<forall>k<length ps.
            startingPos (ps ! k) = Some (spec_cursor spacing ps k) \<and>
            xmin (ps ! k) = Some (spec_cursor spacing ps k - spacing / 2) \<and>
            xmax (ps ! k) = Some (spec_cursor spacing ps k + maxPos (ps ! k) + spacing / 2) \<and>
            tick (ps ! k) =
              Some (((spec_cursor spacing ps k - spacing / 2) +
                     (spec_cursor spacing ps k + maxPos (ps ! k) + spacing / 2)) / 2) \<and>
            spec_cursor spacing ps (Suc k) =
              spec_cursor spacing ps k + maxPos (ps ! k) + spacing))) \<and>
   (0 \<le> a \<and> 0 \<le> b \<and> a + b + 25000000 < 2 ^ 52 \<longrightarrow>
      exact_turn True (chr_spacing True) (of_int a) (of_int b)) \<and>
   (create_manhattan_plot twopoint multipoint phys display = Inr qs \<longrightarrow>
      sorted (map chromosome qs) \<and> distinct (map chromosome qs) \<and>
      plot_chromosomes phys (chr_spacing phys) twopoint multipoint 0 (Some 0)
        (map chromosome qs) = Inr qs) \<and>
   create_manhattan_plot
     (Some [\<lparr>chr = c, pos = 10, name = n1, conf = c1\<rparr>, \<lparr>chr = c, pos = 20, name = n2, conf = c2\<rparr>])
     None phys True =
   Inr [\<lparr>chromosome = c, startingPos = Some 0, maxPos = 20,
         xmin = Some (0 - chr_spacing phys / 2), xmax = Some (0 + 20 + chr_spacing phys / 2),
         tick = Some 10, shaded = False\<rparr>]"
proof (intro conjI impI allI)
  assume h: "plot_chromosomes phys spacing twopoint multipoint 0 (Some 0) cs = Inr ps"
  show m: "map chromosome ps = cs" using h by (rule plot_chromosomes_chromosome)
  {
    fix k assume k: "k < length ps"
    note n = plot_chromosomes_turn [OF h k]
    have "chromosome (ps ! k) = cs ! k" using m k by (metis nth_map)
    with n have "chr_maxPos twopoint multipoint (cs ! k) = Inr (maxPos (ps ! k))" by simp
    then show "maxPos (ps ! k) = Max (set (given_positions twopoint multipoint (cs ! k)))"
      by (rule chr_maxPos_given)
    show "xmin (ps ! k) = f64_sub (as_float phys (startingPos (ps ! k))) (f64 (spacing / 2))"
      using n by blast
    show "xmax (ps ! k) =
           f64_add (as_float phys (pos_add phys (Some (maxPos (ps ! k))) (startingPos (ps ! k))))
             (f64 (spacing / 2))"
      using n by blast
    show "tick (ps ! k) = f64_half (f64_add (xmin (ps ! k)) (xmax (ps ! k)))"
      using n by blast
    {
      assume "k = 0"
      with n show "startingPos (ps ! k) = Some 0" by blast
    }
    {
      assume "Suc k < length ps"
      with n show "startingPos (ps ! Suc k) =
              pos_add phys (pos_add phys (Some (maxPos (ps ! k))) (startingPos (ps ! k)))
                (Some spacing)"
        by blast
    }
  }
  {
    fix k
    assume e: "\<forall>k<length ps. exact_turn phys spacing (spec_cursor spacing ps k) (maxPos (ps ! k))"
      and k: "k < length ps"
    from plot_chromosomes_exact [OF h e k]
    show "startingPos (ps ! k) = Some (spec_cursor spacing ps k)"
      "xmin (ps ! k) = Some (spec_cursor spacing ps k - spacing / 2)"
      "xmax (ps ! k) = Some (spec_cursor spacing ps k + maxPos (ps ! k) + spacing / 2)"
      "tick (ps ! k) =
         Some (((spec_cursor spacing ps k - spacing / 2) +
                (spec_cursor spacing ps k + maxPos (ps ! k) + spacing / 2)) / 2)"
      by blast+
    show "spec_cursor spacing ps (Suc k) = spec_cursor spacing ps k + maxPos (ps ! k) + spacing"
      using k by (rule spec_cursor_Suc)
  }
next
  assume "0 \<le> a \<and> 0 \<le> b \<and> a + b + 25000000 < 2 ^ 52"
  then show "exact_turn True (chr_spacing True) (of_int a) (of_int b)"
    by (intro exact_turn_physical) simp_all
next
  assume h: "create_manhattan_plot twopoint multipoint phys display = Inr qs"
  from create_manhattan_plot_loop [OF h]
  show "sorted (map chromosome qs)" "distinct (map chromosome qs)"
    "plot_chromosomes phys (chr_spacing phys) twopoint multipoint 0 (Some 0)
       (map chromosome qs) = Inr qs"
    by simp_all
next
  show "create_manhattan_plot
     (Some [\<lparr>chr = c, pos = 10, name = n1, conf = c1\<rparr>, \<lparr>chr = c, pos = 20, name = n2, conf = c2\<rparr>])
     None phys True =
   Inr [\<lparr>chromosome = c, startingPos = Some 0, maxPos = 20,
         xmin = Some (0 - chr_spacing phys / 2), xmax = Some (0 + 20 + chr_spacing phys / 2),
         tick = Some 10, shaded = False\<rparr>]"
    by (rule two_positions_layout)
qed

theorem axis_layout_witness:
  "create_manhattan_plot
     (Some [\<lparr>chr = 1, pos = 10, name = ''rs1'', conf = 5 / 2\<rparr>,
            \<lparr>chr = 1, pos = 20, name = ''rs2'', conf = 4\<rparr>]) None False True =
   Inr [\<lparr>chromosome = 1, startingPos = Some 0, maxPos = 20, xmin = Some (- (25 / 2)),
         xmax = Some (20 + 25 / 2), tick = Some 10, shaded = False\<rparr>] \<and>
   create_manhattan_plot
     (Some [\<lparr>chr = 1, pos = 10, name = ''rs1'', conf = 5 / 2\<rparr>,
            \<lparr>chr = 1, pos = 20, name = ''rs2'', conf = 4\<rparr>]) None True True =
   Inr [\<lparr>chromosome = 1, startingPos = Some 0, maxPos = 20, xmin = Some (- 12500000),
         xmax = Some 12500020, tick = Some 10, shaded = False\<rparr>] \<and>
   plot_chromosomes True (chr_spacing True)
     (Some [\<lparr>chr = 1, pos = 10, name = ''rs1'', conf = 5 / 2\<rparr>,
            \<lparr>chr = 1, pos = 20, name = ''rs2'', conf = 4\<rparr>]) None 0 (Some 0) [1] =
   Inr [\<lparr>chromosome = 1, startingPos = Some 0, maxPos = 20, xmin = Some (- 12500000),
         xmax = Some 12500020, tick = Some 10, shaded = False\<rparr>] \<and>
   (0 :: int) \<le> 0 \<and> (0 :: int) \<le> 20 \<and> (0 :: int) + 20 + 25000000 < 2 ^ 52 \<and>
   exact_turn True (chr_spacing True) 0 20 \<and>
   Max (set (given_positions
     (Some [\<lparr>chr = 1, pos = 10, name = ''rs1'', conf = 5 / 2\<rparr>,
            \<lparr>chr = 1, pos = 20, name = ''rs2'', conf = 4\<rparr>]) None 1)) = 20 \<and>
   spec_cursor (chr_spacing True)
     [\<lparr>chromosome = 1, startingPos = Some 0, maxPos = 20, xmin = Some (- 12500000),
       xmax = Some 12500020, tick = Some 10, shaded = False\<rparr>] (Suc 0) = 25000020"
proof -
  let ?tp = "Some [\<lparr>chr = 1, pos = 10, name = ''rs1'', conf = 5 / 2\<rparr>,
                   \<lparr>chr = 1, pos = 20, name = ''rs2'', conf = 4\<rparr>]"
  let ?p = "\<lparr>chromosome = 1, startingPos = Some 0, maxPos = 20, xmin = Some (- 12500000),
         xmax = Some 12500020, tick = Some 10, shaded = False\<rparr>"
  note t = axis_layout [where phys = True and spacing = "chr_spacing True" and twopoint = ?tp
      and multipoint = None and cs = "[1]" and ps = "[?p]" and display = True
      and qs = "[?p]" and c = 1 and ?n1.0 = "''rs1''" and ?c1.0 = "5 / 2" and ?n2.0 = "''rs2''"
      and ?c2.0 = 4 and a = 0 and b = 20]
  note f = axis_layout [where phys = False and c = 1 and ?n1.0 = "''rs1''" and ?c1.0 = "5 / 2"
      and ?n2.0 = "''rs2''" and ?c2.0 = 4]
  have s: "chr_spacing True = 25000000" "chr_spacing False = 25" by (simp_all add: chr_spacing_def)
  have r: "(0 :: int) \<le> 0 \<and> (0 :: int) \<le> 20 \<and> (0 :: int) + 20 + 25000000 < 2 ^ 52" by simp
  have a0: "create_manhattan_plot ?tp None False True =
    Inr [\<lparr>chromosome = 1, startingPos = Some 0, maxPos = 20, xmin = Some (- (25 / 2)),
         xmax = Some (20 + 25 / 2), tick = Some 10, shaded = False\<rparr>]"
    using f by (simp add: s del: plot_chromosomes.simps)
  have a: "create_manhattan_plot ?tp None True True = Inr [?p]"
    using t by (simp add: s del: plot_chromosomes.simps)
  have "plot_chromosomes True (chr_spacing True) ?tp None 0 (Some 0) (map chromosome [?p]) =
          Inr [?p]"
    using t a by blast
  then have b: "plot_chromosomes True (chr_spacing True) ?tp None 0 (Some 0) [1] = Inr [?p]"
    by (simp del: plot_chromosomes.simps)
  have "exact_turn True (chr_spacing True) (of_int 0) (of_int 20)" using t r by blast
  then have e: "exact_turn True (chr_spacing True) 0 20" by simp
  then have h: "\<forall>k<length [?p].
      exact_turn True (chr_spacing True) (spec_cursor (chr_spacing True) [?p] k) (maxPos ([?p] ! k))"
    by simp
  have all: "\<forall>k<length [?p].
      maxPos ([?p] ! k) = Max (set (given_positions ?tp None ([1] ! k)))"
    using t b by blast
  then have c: "Max (set (given_positions ?tp None 1)) = 20" by simp
  have "\<forall>k<length [?p]. spec_cursor (chr_spacing True) [?p] (Suc k) =
      spec_cursor (chr_spacing True) [?p] k + maxPos ([?p] ! k) + chr_spacing True"
    using t b h by blast
  then have d: "spec_cursor (chr_spacing True) [?p] (Suc 0) = 25000020" by (simp add: s)
  show ?thesis using a0 a b c d e r by blast
qed





section \<open>The chromosomes of the two datasets\<close>

text \<open>
  Claim C3.  When both datasets are given and the sets of their chromosomes differ,
  \<^verbatim>\<open>create_manhattan_plot\<close> raises \<^verbatim>\<open>ProgramError\<close> with the message about a missing
  chromosome, and no placement is made.  When the sets are equal it does not raise this
  error; with a display and two datasets that are not empty it returns the placements of
  exactly these chromosomes, in ascending order.
\<close>

theorem chromosome_sets_checked:
  "(chr ` set tp \<noteq> chr ` set mp \<longrightarrow>
      create_manhattan_plot (Some tp) (Some mp) phys display = Inl (ProgramError mismatch_msg)) \<and>
   (chr ` set tp = chr ` set mp \<longrightarrow>
      create_manhattan_plot (Some tp) (Some mp) phys display \<noteq> Inl (ProgramError mismatch_msg) \<and>
      (display \<and> tp \<noteq> [] \<and> mp \<noteq> [] \<longrightarrow>
         (\<exists>ps. create_manhattan_plot (Some tp) (Some mp) phys display = Inr ps \<and>
               map chromosome ps = unique_chr tp)))"
proof (intro conjI impI)
  assume "chr ` set tp \<noteq> chr ` set mp"
  then have "unique_chr tp \<noteq> unique_chr mp" by (simp add: unique_chr_eq_iff)
  then show "create_manhattan_plot (Some tp) (Some mp) phys display =
               Inl (ProgramError mismatch_msg)"
    by (simp add: create_manhattan_plot_def available_lists_def)
next
  assume eq: "chr ` set tp = chr ` set mp"
  then have u: "unique_chr tp = unique_chr mp" by (simp add: unique_chr_eq_iff)
  have ok: "\<exists>ps. plot_chromosomes phys (chr_spacing phys) (Some tp) (Some mp) 0 (Some 0)
                   (unique_chr tp) = Inr ps"
  proof (rule plot_chromosomes_ok, rule ballI)
    fix c assume "c \<in> set (unique_chr tp)"
    then have "c \<in> chr ` set tp" by simp
    with eq show "\<exists>mx. chr_maxPos (Some tp) (Some mp) c = Inr mx"
      by (intro chr_maxPos_ok) auto
  qed
  then obtain ps where ps: "plot_chromosomes phys (chr_spacing phys) (Some tp) (Some mp) 0 (Some 0)
                              (unique_chr tp) = Inr ps"
    by blast
  show "create_manhattan_plot (Some tp) (Some mp) phys display \<noteq> Inl (ProgramError mismatch_msg)"
    using u ps messages_differ
    by (auto simp: create_manhattan_plot_def available_lists_def dest: conf_max_Inl
        split: sum.splits)
  assume d: "display \<and> tp \<noteq> [] \<and> mp \<noteq> []"
  then obtain xs where "conf_max (Some tp) (Some mp) = Inr xs"
    using conf_max_ok [of "Some tp" "Some mp"] by auto
  with u ps d have "create_manhattan_plot (Some tp) (Some mp) phys display = Inr ps"
    by (simp add: create_manhattan_plot_def available_lists_def)
  moreover have "map chromosome ps = unique_chr tp" using ps by (rule plot_chromosomes_chromosome)
  ultimately show "\<exists>ps. create_manhattan_plot (Some tp) (Some mp) phys display = Inr ps \<and>
               map chromosome ps = unique_chr tp"
    by blast
qed

theorem chromosome_sets_checked_witness:
  "chr ` set [\<lparr>chr = 1, pos = 10, name = ''rs1'', conf = 5 / 2\<rparr>,
              \<lparr>chr = 5, pos = 30, name = ''rs3'', conf = 1\<rparr>] \<noteq>
   chr ` set [\<lparr>chr = 1, pos = 25, name = ''m1'', conf = 1\<rparr>] \<and>
   create_manhattan_plot
     (Some [\<lparr>chr = 1, pos = 10, name = ''rs1'', conf = 5 / 2\<rparr>,
            \<lparr>chr = 5, pos = 30, name = ''rs3'', conf = 1\<rparr>])
     (Some [\<lparr>chr = 1, pos = 25, name = ''m1'', conf = 1\<rparr>]) False True =
   Inl (ProgramError ''missing chromsoome in either twopoint or multipoint data'') \<and>
   chr ` set [\<lparr>chr = 1, pos = 10, name = ''rs1'', conf = 5 / 2\<rparr>,
              \<lparr>chr = 5, pos = 30, name = ''rs3'', conf = 1\<rparr>] =
   chr ` set [\<lparr>chr = 5, pos = 2, name = ''m2'', conf = 3\<rparr>,
              \<lparr>chr = 1, pos = 25, name = ''m1'', conf = 1\<rparr>] \<and>
   (\<exists>ps. create_manhattan_plot
       (Some [\<lparr>chr = 1, pos = 10, name = ''rs1'', conf = 5 / 2\<rparr>,
              \<lparr>chr = 5, pos = 30, name = ''rs3'', conf = 1\<rparr>])
       (Some [\<lparr>chr = 5, pos = 2, name = ''m2'', conf = 3\<rparr>,
              \<lparr>chr = 1, pos = 25, name = ''m1'', conf = 1\<rparr>]) False True = Inr ps \<and>
      map chromosome ps = [1, 5])"
proof -
  let ?tp = "[\<lparr>chr = 1, pos = 10, name = ''rs1'', conf = 5 / 2\<rparr>,
              \<lparr>chr = 5, pos = 30, name = ''rs3'', conf = 1\<rparr>]"
  let ?m1 = "[\<lparr>chr = 1, pos = 25, name = ''m1'', conf = 1\<rparr>]"
  let ?m2 = "[\<lparr>chr = 5, pos = 2, name = ''m2'', conf = 3\<rparr>,
              \<lparr>chr = 1, pos = 25, name = ''m1'', conf = 1\<rparr>]"
  have d: "chr ` set ?tp \<noteq> chr ` set ?m1" by auto
  have e: "chr ` set ?tp = chr ` set ?m2" by auto
  have u: "unique_chr ?tp = [1, 5]" by (simp add: unique_chr_def)
  have n: "True \<and> ?tp \<noteq> [] \<and> ?m2 \<noteq> []" by simp
  have a: "create_manhattan_plot (Some ?tp) (Some ?m1) False True =
             Inl (ProgramError ''missing chromsoome in either twopoint or multipoint data'')"
    using chromosome_sets_checked [of ?tp ?m1 False True] d
    unfolding mismatch_msg_def by blast
  have b: "\<exists>ps. create_manhattan_plot (Some ?tp) (Some ?m2) False True = Inr ps \<and>
             map chromosome ps = unique_chr ?tp"
    using chromosome_sets_checked [of ?tp ?m2 False True] e n by blast
  show ?thesis using d e a b unfolding u by blast
qed

end
